theory Spec2Isabelle
  imports Main "HOL-Library.AList" "HOL-Library.List_Lexorder" "HOL-Library.Char_ord"
begin

section \<open>Data model of the dispatcher\<close>

text \<open>
  Reserved node ids are tokens (\<^verbatim>\<open>schedula.utils.cst\<close>); they compare by identity and
  never equal a plain string id.
\<close>

datatype token = EMPTY | START | NONE | SINK | SELF | END | PLOT

datatype node_id = Tok token | Name string

text \<open>A value of a sub-dispatcher map: one id, or a list of ids (\<^verbatim>\<open>stlp\<close> makes both a sequence).\<close>

datatype ids = One node_id | Many "node_id list"


text \<open>
  Python objects stored in attribute dictionaries. User values are \<open>'v\<close>, callables
  (functions, callbacks, sub-dispatcher objects) are \<open>'f\<close>. Numbers are modelled as
  integers.
\<close>

datatype ('v, 'f) pyobj =
    PyNone
  | PyTok token
  | PySelf
  | PyBool bool
  | PyStr string
  | PyNum int
  | PyIndex "nat list"
  | PyIds "node_id list"
  | PyIOMap "(node_id \<times> ids) list"
  | PyWeights "(node_id \<times> int) list"
  | PyFun 'f
  | PyFuns "'f list"
  | PyLinks "((string \<times> nat) \<times> string) list"
  | PyVal 'v

text \<open>
  A Python \<^verbatim>\<open>dict\<close> is an association list under \<open>AList.update\<close> and
  \<open>AList.delete\<close>: a lookup is \<open>map_of\<close>, a store replaces in place or appends.
\<close>

type_synonym ('v, 'f) attrs = "(string \<times> ('v, 'f) pyobj) list"

text \<open>The \<^verbatim>\<open>networkx.DiGraph\<close>: node attribute dicts and edge attribute dicts.\<close>

record ('v, 'f) digraph =
  node :: "(node_id \<times> ('v, 'f) attrs) list"
  adj :: "((node_id \<times> node_id) \<times> ('v, 'f) attrs) list"

text \<open>An entry of \<^verbatim>\<open>Dispatcher.default_values\<close>: \<^verbatim>\<open>{'value': v, 'initial_dist': d}\<close>.\<close>

record ('v, 'f) dflt =
  dvalue :: "('v, 'f) pyobj"
  initial_dist :: int

text \<open>
  The \<^verbatim>\<open>Dispatcher\<close> object. The stopper is a reference to an event held in a store of
  events; \<open>counter\<close> is the next value of \<^verbatim>\<open>self.counter()\<close>.
\<close>

record ('v, 'f) dispatcher =
  dmap :: "('v, 'f) digraph"
  name :: string
  doc :: string
  default_values :: "(node_id \<times> ('v, 'f) dflt) list"
  weight :: string
  raises :: bool
  stopper :: nat
  counter :: nat

datatype exn =
    ValueError string
  | KeyError
  | IndexError
  | TypeError string
  | NetworkXError

text \<open>A dispatcher as \<^verbatim>\<open>Dispatcher()\<close> builds it, bound to the event \<open>ev\<close>.\<close>

definition empty_dsp :: "string \<Rightarrow> nat \<Rightarrow> ('v, 'f) dispatcher" where
  "empty_dsp nm ev =
     \<lparr>dmap = \<lparr>node = [], adj = []\<rparr>, name = nm, doc = [], default_values = [],
      weight = ''weight'', raises = False, stopper = ev, counter = 0\<rparr>"

text \<open>
  A small dispatcher used to evaluate the operations: function node \<^verbatim>\<open>f\<close> from data node
  \<^verbatim>\<open>a\<close> to data node \<^verbatim>\<open>b\<close>.
\<close>

definition dsp_a_f :: "(int, string) dispatcher" where
  "dsp_a_f = (empty_dsp ''d'' 0)
     \<lparr>dmap := \<lparr>node = [(Name ''a'', [(''type'', PyStr ''data''), (''wait_inputs'', PyBool False),
                                      (''index'', PyIndex [1])]),
                        (Name ''f'', [(''type'', PyStr ''function''), (''inputs'', PyIds [Name ''a'']),
                                      (''outputs'', PyIds [Name ''b'']), (''function'', PyNone),
                                      (''wait_inputs'', PyBool True), (''index'', PyIndex [0])]),
                        (Name ''b'', [(''type'', PyStr ''data''), (''wait_inputs'', PyBool False),
                                      (''index'', PyIndex [2])])],
               adj = [((Name ''a'', Name ''f''), []), ((Name ''f'', Name ''b''), [])]\<rparr>,
      counter := 3\<rparr>"

section \<open>The directed graph\<close>

text \<open>\<^verbatim>\<open>d.update(e)\<close> on Python dictionaries.\<close>

definition dict_update :: "('k \<times> 'a) list \<Rightarrow> ('k \<times> 'a) list \<Rightarrow> ('k \<times> 'a) list" where
  "dict_update d e = fold (\<lambda>(k, v). AList.update k v) e d"

text \<open>\<^verbatim>\<open>if v is not None: d[k] = v\<close>.\<close>

fun opt_set :: "'k \<Rightarrow> 'a option \<Rightarrow> ('k \<times> 'a) list \<Rightarrow> ('k \<times> 'a) list" where
  "opt_set k None d = d"
| "opt_set k (Some v) d = AList.update k v d"

definition has_node :: "('v, 'f) digraph \<Rightarrow> node_id \<Rightarrow> bool" where
  "has_node g n = (map_of (node g) n \<noteq> None)"

definition has_edge :: "('v, 'f) digraph \<Rightarrow> node_id \<Rightarrow> node_id \<Rightarrow> bool" where
  "has_edge g u v = (map_of (adj g) (u, v) \<noteq> None)"

text \<open>
  \<^verbatim>\<open>DiGraph.add_node(n, attr_dict)\<close>: a new node takes the attribute dict, an existing
  node has its attribute dict updated with it.
\<close>

definition add_node :: "('v, 'f) digraph \<Rightarrow> node_id \<Rightarrow> ('v, 'f) attrs \<Rightarrow> ('v, 'f) digraph" where
  "add_node g n a =
     (case map_of (node g) n of
        None \<Rightarrow> g\<lparr>node := AList.update n a (node g)\<rparr>
      | Some old \<Rightarrow> g\<lparr>node := AList.update n (dict_update old a) (node g)\<rparr>)"

text \<open>
  \<^verbatim>\<open>DiGraph.add_edge(u, v, **attr)\<close>: missing end points are created with empty
  attributes; the attributes of an existing edge are updated.
\<close>

definition add_edge ::
  "('v, 'f) digraph \<Rightarrow> node_id \<Rightarrow> node_id \<Rightarrow> ('v, 'f) attrs \<Rightarrow> ('v, 'f) digraph" where
  "add_edge g u v a =
     (let g1 = (if has_node g u then g else g\<lparr>node := AList.update u [] (node g)\<rparr>);
          g2 = (if has_node g1 v then g1 else g1\<lparr>node := AList.update v [] (node g1)\<rparr>);
          old = (case map_of (adj g2) (u, v) of None \<Rightarrow> [] | Some d \<Rightarrow> d)
      in g2\<lparr>adj := AList.update (u, v) (dict_update old a) (adj g2)\<rparr>)"

text \<open>Deleting a node deletes its incident edges.\<close>

definition drop_node :: "('v, 'f) digraph \<Rightarrow> node_id \<Rightarrow> ('v, 'f) digraph" where
  "drop_node g n =
     g\<lparr>node := AList.delete n (node g),
       adj := filter (\<lambda>e. fst (fst e) \<noteq> n \<and> snd (fst e) \<noteq> n) (adj g)\<rparr>"

text \<open>\<^verbatim>\<open>DiGraph.remove_node(n)\<close> raises \<^verbatim>\<open>NetworkXError\<close> on a node that is absent.\<close>

definition remove_node :: "('v, 'f) digraph \<Rightarrow> node_id \<Rightarrow> exn + ('v, 'f) digraph" where
  "remove_node g n = (if has_node g n then Inr (drop_node g n) else Inl NetworkXError)"

text \<open>\<^verbatim>\<open>DiGraph.remove_nodes_from(ns)\<close> skips the nodes that are absent.\<close>

definition remove_nodes_from :: "('v, 'f) digraph \<Rightarrow> node_id list \<Rightarrow> ('v, 'f) digraph" where
  "remove_nodes_from g ns = fold (\<lambda>n g. drop_node g n) ns g"

text \<open>\<^verbatim>\<open>DiGraph.remove_edge(u, v)\<close> raises \<^verbatim>\<open>NetworkXError\<close> on an edge that is absent.\<close>

definition remove_edge :: "('v, 'f) digraph \<Rightarrow> node_id \<Rightarrow> node_id \<Rightarrow> exn + ('v, 'f) digraph" where
  "remove_edge g u v =
     (if has_edge g u v then Inr (g\<lparr>adj := AList.delete (u, v) (adj g)\<rparr>) else Inl NetworkXError)"

definition out_degree :: "('v, 'f) digraph \<Rightarrow> node_id \<Rightarrow> nat" where
  "out_degree g n = length (filter (\<lambda>e. fst (fst e) = n) (adj g))"

definition in_degree :: "('v, 'f) digraph \<Rightarrow> node_id \<Rightarrow> nat" where
  "in_degree g n = length (filter (\<lambda>e. snd (fst e) = n) (adj g))"

text \<open>\<^verbatim>\<open>networkx.isolates\<close>: the nodes of degree zero.\<close>

definition isolates :: "('v, 'f) digraph \<Rightarrow> node_id list" where
  "isolates g = filter (\<lambda>n. in_degree g n + out_degree g n = 0) (map fst (node g))"

text \<open>\<^verbatim>\<open>DiGraph.subgraph(nbunch)\<close>: the nodes of the bunch that are in the graph, with the edges between them.\<close>

definition subgraph :: "('v, 'f) digraph \<Rightarrow> node_id list \<Rightarrow> ('v, 'f) digraph" where
  "subgraph g nbunch =
     (let ns = filter (\<lambda>p. fst p \<in> set nbunch) (node g)
      in \<lparr>node = ns,
          adj = filter (\<lambda>e. fst (fst e) \<in> fst ` set ns \<and> snd (fst e) \<in> fst ` set ns) (adj g)\<rparr>)"

section \<open>Unused node ids\<close>

text \<open>The decimal rendering of \<^verbatim>\<open>%d\<close>.\<close>

fun string_of_nat :: "nat \<Rightarrow> string" where
  "string_of_nat n =
     (if n < 10 then [char_of (48 + n)]
      else string_of_nat (n div 10) @ [char_of (48 + n mod 10)])"

declare string_of_nat.simps [simp del]

definition format_id :: "string \<Rightarrow> nat \<Rightarrow> node_id" where
  "format_id guess n = Name (guess @ ''<'' @ string_of_nat n @ ''>'')"

lemma string_of_nat_ne: "string_of_nat n \<noteq> []"
  by (subst string_of_nat.simps) simp

lemma digit_inj:
  assumes "a < 10" "b < 10" "(char_of (48 + a) :: char) = char_of (48 + b)"
  shows "a = (b::nat)"
proof -
  have "of_char (char_of (48 + a) :: char) = (of_char (char_of (48 + b) :: char) :: nat)"
    using assms(3) by simp
  then have "(48 + a) mod 256 = (48 + b) mod 256" by simp
  with assms(1,2) show ?thesis by simp
qed

lemma string_of_nat_inj: "string_of_nat n = string_of_nat m \<Longrightarrow> n = m"
proof (induction n arbitrary: m rule: string_of_nat.induct)
  case (1 n)
  show ?case
  proof (cases "n < 10")
    case True
    note n = this
    show ?thesis
    proof (cases "m < 10")
      case True
      with n "1.prems" show ?thesis
        by (simp add: string_of_nat.simps [of n] string_of_nat.simps [of m] digit_inj)
    next
      case False
      with n "1.prems" show ?thesis
        using string_of_nat_ne [of "m div 10"]
        by (simp add: string_of_nat.simps [of n] string_of_nat.simps [of m])
    qed
  next
    case False
    note n = this
    show ?thesis
    proof (cases "m < 10")
      case True
      with n "1.prems" show ?thesis
        using string_of_nat_ne [of "n div 10"]
        by (simp add: string_of_nat.simps [of n] string_of_nat.simps [of m])
    next
      case False
      with n "1.prems" have e: "string_of_nat (n div 10) = string_of_nat (m div 10)"
        and d: "(char_of (48 + n mod 10) :: char) = char_of (48 + m mod 10)"
        by (simp_all add: string_of_nat.simps [of n] string_of_nat.simps [of m])
      from "1.IH" [OF n e] have "n div 10 = m div 10" .
      moreover from d have "n mod 10 = m mod 10" by (intro digit_inj) simp_all
      ultimately show ?thesis by (metis div_mult_mod_eq)
    qed
  qed
qed

lemma format_id_inj: "format_id guess n = format_id guess m \<Longrightarrow> n = m"
  by (simp add: format_id_def string_of_nat_inj)

lemma finite_used_ids: "finite {k. has_node g (format_id guess k)}"
proof -
  have i: "inj (format_id guess)"
    by (rule injI) (rule format_id_inj)
  have "{k. has_node g (format_id guess k)} \<subseteq> format_id guess -` (fst ` set (node g))"
    by (auto simp: has_node_def dest!: map_of_SomeD) (metis fst_conv image_eqI)
  moreover have "finite (format_id guess -` (fst ` set (node g)))"
    by (rule finite_vimageI [OF _ i]) simp
  ultimately show ?thesis by (rule finite_subset)
qed

text \<open>
  Modelled from the spec: \<^verbatim>\<open>get_unused_node_id\<close> (\<^verbatim>\<open>utils/alg.py\<close>) is not among the
  sources. The spec has \<^verbatim>\<open>add_data\<close> auto-generate an unused id, and the docstring of
  \<^verbatim>\<open>add_data\<close> gives the ids \<^verbatim>\<open>unknown<%d>\<close> not in the graph: the initial guess is
  taken when it is unused, otherwise the first of \<^verbatim>\<open>guess<0>\<close>, \<^verbatim>\<open>guess<1>\<close>, ... that
  is unused.
\<close>

function unused_from :: "('v, 'f) digraph \<Rightarrow> string \<Rightarrow> nat \<Rightarrow> node_id" where
  "unused_from g guess n =
     (if has_node g (format_id guess n) then unused_from g guess (Suc n) else format_id guess n)"
  by pat_completeness auto
termination
proof (relation "measure (\<lambda>(g, guess, n). card {k. n \<le> k \<and> has_node g (format_id guess k)})")
  show "wf (measure (\<lambda>(g, guess, n). card {k. n \<le> k \<and> has_node g (format_id guess k)}))"
    by simp
next
  fix g :: "('v, 'f) digraph" and guess n
  assume h: "has_node g (format_id guess n)"
  have fin: "finite {k. n \<le> k \<and> has_node g (format_id guess k)}"
    by (rule finite_subset [OF _ finite_used_ids [of g guess]]) auto
  have "n \<in> {k. n \<le> k \<and> has_node g (format_id guess k)}"
    and "n \<notin> {k. Suc n \<le> k \<and> has_node g (format_id guess k)}"
    and "{k. Suc n \<le> k \<and> has_node g (format_id guess k)} \<subseteq> {k. n \<le> k \<and> has_node g (format_id guess k)}"
    using h by auto
  then have "{k. Suc n \<le> k \<and> has_node g (format_id guess k)} \<subset> {k. n \<le> k \<and> has_node g (format_id guess k)}"
    by blast
  then have "card {k. Suc n \<le> k \<and> has_node g (format_id guess k)} < card {k. n \<le> k \<and> has_node g (format_id guess k)}"
    by (rule psubset_card_mono [OF fin])
  then show "((g, guess, Suc n), (g, guess, n)) \<in> measure (\<lambda>(g, guess, n). card {k. n \<le> k \<and> has_node g (format_id guess k)})"
    by simp
qed

declare unused_from.simps [simp del]

definition get_unused_node_id :: "('v, 'f) digraph \<Rightarrow> string \<Rightarrow> node_id" where
  "get_unused_node_id g initial_guess =
     (if has_node g (Name initial_guess) then unused_from g initial_guess 0 else Name initial_guess)"

section \<open>Default values\<close>

text \<open>\<^verbatim>\<open>self.dmap.node[data_id]['type']\<close>: both subscripts raise \<^verbatim>\<open>KeyError\<close>.\<close>

definition node_type :: "('v, 'f) digraph \<Rightarrow> node_id \<Rightarrow> exn + ('v, 'f) pyobj" where
  "node_type g n =
     (case map_of (node g) n of
        None \<Rightarrow> Inl KeyError
      | Some a \<Rightarrow> (case map_of a ''type'' of None \<Rightarrow> Inl KeyError | Some t \<Rightarrow> Inr t))"

text \<open>
  \<^verbatim>\<open>Dispatcher.set_default_value\<close>. The result is the exception raised, if any, and the
  dispatcher after the call.
\<close>

definition set_default_value ::
  "('v, 'f) dispatcher \<Rightarrow> node_id \<Rightarrow> ('v, 'f) pyobj \<Rightarrow> int \<Rightarrow> exn option \<times> ('v, 'f) dispatcher" where
  "set_default_value self data_id val dist =
     (case node_type (dmap self) data_id of
        Inr t \<Rightarrow>
          if t = PyStr ''data'' then
            (if val = PyTok EMPTY
             then (None, self\<lparr>default_values := AList.delete data_id (default_values self)\<rparr>)
             else (None, self\<lparr>default_values :=
                      AList.update data_id \<lparr>dvalue = val, initial_dist = dist\<rparr> (default_values self)\<rparr>))
          else (Some (ValueError ''Input error: not a data node''), self)
      | Inl KeyError \<Rightarrow> (Some (ValueError ''Input error: not a data node''), self)
      | Inl e \<Rightarrow> (Some e, self))"

definition is_data_node :: "('v, 'f) dispatcher \<Rightarrow> node_id \<Rightarrow> bool" where
  "is_data_node self n = (node_type (dmap self) n = Inr (PyStr ''data''))"

lemma node_type_cases:
  "node_type g n = Inl KeyError \<or> (\<exists>t. node_type g n = Inr t)"
  by (simp add: node_type_def split: option.splits)

text \<open>
  C7: on a data node, a value other than the sentinel \<^verbatim>\<open>EMPTY\<close> makes the default of
  the id exactly the given value and initial distance, the sentinel removes any default of
  the id, and on every id that is not a data node the call raises \<^verbatim>\<open>ValueError\<close> and
  leaves the dispatcher as it was.
\<close>

theorem set_default_value_spec:
  "(is_data_node self d \<and> v \<noteq> PyTok EMPTY \<longrightarrow>
      fst (set_default_value self d v dist) = None \<and>
      map_of (default_values (snd (set_default_value self d v dist))) d
        = Some \<lparr>dvalue = v, initial_dist = dist\<rparr>) \<and>
   (is_data_node self d \<longrightarrow>
      fst (set_default_value self d (PyTok EMPTY) dist) = None \<and>
      map_of (default_values (snd (set_default_value self d (PyTok EMPTY) dist))) d = None) \<and>
   (\<not> is_data_node self d \<longrightarrow>
      (\<exists>m. fst (set_default_value self d v dist) = Some (ValueError m)) \<and>
      snd (set_default_value self d v dist) = self)"
  using node_type_cases [of "dmap self" d]
  by (auto simp: set_default_value_def is_data_node_def update_conv' delete_conv')

theorem set_default_value_spec_witness:
  "is_data_node dsp_a_f (Name ''a'') \<and> PyVal 7 \<noteq> (PyTok EMPTY :: (int, string) pyobj) \<and>
   map_of (default_values (snd (set_default_value dsp_a_f (Name ''a'') (PyVal 7) 3))) (Name ''a'')
     = Some \<lparr>dvalue = PyVal 7, initial_dist = 3\<rparr> \<and>
   map_of (default_values (snd (set_default_value dsp_a_f (Name ''a'') (PyTok EMPTY) 3))) (Name ''a'') = None \<and>
   \<not> is_data_node dsp_a_f (Name ''f'') \<and>
   (\<exists>m. fst (set_default_value dsp_a_f (Name ''f'') (PyVal 7) 3) = Some (ValueError m))"
  using set_default_value_spec [of dsp_a_f "Name ''a''" "PyVal 7" 3]
        set_default_value_spec [of dsp_a_f "Name ''f''" "PyVal 7" 3]
  by (simp add: is_data_node_def node_type_def dsp_a_f_def empty_dsp_def)

section \<open>Building the graph\<close>

text \<open>
  What the build functions take from their surroundings: the function \<^verbatim>\<open>bypass\<close>, the two
  plotting callables of \<^verbatim>\<open>utils/drw.py\<close>, the docstrings of the tokens,
  \<^verbatim>\<open>parent_func(f).__name__\<close>, which is absent on a callable without a name, and Python's
  \<^verbatim>\<open>sorted\<close> on ids.
\<close>

record 'f env =
  bypass :: 'f
  autoplot_callback :: 'f
  autoplot_function :: 'f
  token_doc :: "token \<Rightarrow> string"
  func_name :: "'f \<Rightarrow> string option"
  sorted_ids :: "node_id list \<Rightarrow> node_id list"

text \<open>The arguments of \<^verbatim>\<open>add_data\<close>; \<open>data_kwargs\<close> are the extra keyword attributes.\<close>

record ('v, 'f) data_args =
  data_id :: "node_id option"
  default_value :: "('v, 'f) pyobj"
  data_dist :: int
  wait_inputs :: bool
  wildcard :: "bool option"
  data_function :: "'f option"
  callback :: "'f option"
  remote_links :: "((string \<times> nat) \<times> string) list option"
  data_description :: "string option"
  data_filters :: "'f list"
  data_kwargs :: "('v, 'f) attrs"

text \<open>\<^verbatim>\<open>add_data(data_id=d)\<close> with every other argument at its default.\<close>

definition data_defaults :: "node_id option \<Rightarrow> ('v, 'f) data_args" where
  "data_defaults d =
     \<lparr>data_id = d, default_value = PyTok EMPTY, data_dist = 0, wait_inputs = False,
      wildcard = None, data_function = None, callback = None, remote_links = None,
      data_description = None, data_filters = [], data_kwargs = []\<rparr>"

text \<open>The first block of \<^verbatim>\<open>add_data\<close>: the special data nodes.\<close>

definition special_data :: "'f env \<Rightarrow> ('v, 'f) data_args \<Rightarrow> ('v, 'f) data_args" where
  "special_data env a =
     (if data_id a = Some (Tok START) then
        a\<lparr>default_value := PyTok NONE, data_description := Some (token_doc env START)\<rparr>
      else if data_id a = Some (Tok SINK) then
        a\<lparr>wait_inputs := True, data_function := Some (bypass env),
          data_description := Some (token_doc env SINK)\<rparr>
      else if data_id a = Some (Tok SELF) then
        a\<lparr>default_value := PySelf, data_description := Some (token_doc env SELF)\<rparr>
      else if data_id a = Some (Tok PLOT) then
        a\<lparr>callback := Some (case callback a of Some c \<Rightarrow> c | None \<Rightarrow> autoplot_callback env),
          data_description := Some (token_doc env PLOT),
          data_function := Some (case data_function a of Some f \<Rightarrow> f | None \<Rightarrow> autoplot_function env)\<rparr>
      else a)"

text \<open>The attribute dict of a data node, \<^verbatim>\<open>index\<close> being the value of the counter.\<close>

definition data_attr_dict :: "nat \<Rightarrow> ('v, 'f) data_args \<Rightarrow> ('v, 'f) attrs" where
  "data_attr_dict idx a =
     dict_update
       (opt_set ''filters'' (if data_filters a = [] then None else Some (PyFuns (data_filters a)))
       (opt_set ''description'' (map_option PyStr (data_description a))
       (opt_set ''remote_links'' (map_option PyLinks (remote_links a))
       (opt_set ''wildcard'' (map_option PyBool (wildcard a))
       (opt_set ''callback'' (map_option PyFun (callback a))
       (opt_set ''function'' (map_option PyFun (data_function a))
          [(''type'', PyStr ''data''), (''wait_inputs'', PyBool (wait_inputs a)),
           (''index'', PyIndex [idx])]))))))
       (data_kwargs a)"

text \<open>The tail of \<^verbatim>\<open>add_data\<close>: the node is added, then its default value is set.\<close>

definition store_data ::
  "('v, 'f) dispatcher \<Rightarrow> node_id \<Rightarrow> ('v, 'f) attrs \<Rightarrow> ('v, 'f) pyobj \<Rightarrow> int
     \<Rightarrow> (exn + node_id) \<times> ('v, 'f) dispatcher" where
  "store_data self d attr_dict val dist =
     (case set_default_value (self\<lparr>dmap := add_node (dmap self) d attr_dict\<rparr>) d val dist of
        (Some e, self') \<Rightarrow> (Inl e, self')
      | (None, self') \<Rightarrow> (Inr d, self'))"

text \<open>
  \<^verbatim>\<open>Dispatcher.add_data\<close>. The counter is read when the attribute dict is built, before
  the check of the id.
\<close>

definition add_data ::
  "'f env \<Rightarrow> ('v, 'f) dispatcher \<Rightarrow> ('v, 'f) data_args \<Rightarrow> (exn + node_id) \<times> ('v, 'f) dispatcher" where
  "add_data env self args =
     (let a = special_data env args;
          attr_dict = data_attr_dict (counter self) a;
          self1 = self\<lparr>counter := Suc (counter self)\<rparr>
      in case data_id a of
           None \<Rightarrow>
             store_data self1 (get_unused_node_id (dmap self1) ''unknown'') attr_dict
               (default_value a) (data_dist a)
         | Some d \<Rightarrow>
             if has_node (dmap self1) d then
               (case node_type (dmap self1) d of
                  Inl e \<Rightarrow> (Inl e, self1)
                | Inr t \<Rightarrow>
                    if t \<noteq> PyStr ''data''
                    then (Inl (ValueError ''Invalid data id: override function''), self1)
                    else store_data self1 d attr_dict (default_value a) (data_dist a))
             else store_data self1 d attr_dict (default_value a) (data_dist a))"

text \<open>
  Modelled from the spec: \<^verbatim>\<open>add_func_edges\<close> (\<^verbatim>\<open>utils/alg.py\<close>) is not among the sources.
  \<^verbatim>\<open>add_function\<close> calls it once on the inputs and once on the outputs, handing the list
  of new data nodes of the first call to the second. By the spec the edges are added with
  the supplied per-edge weights, a missing data node is created, and an id of another kind
  is a construction error that fails at build time: the new function node and the data
  nodes created for it are removed again.
\<close>

definition edge_attr :: "(node_id \<times> int) list option \<Rightarrow> node_id \<Rightarrow> ('v, 'f) attrs" where
  "edge_attr edge_weights u =
     (case edge_weights of
        None \<Rightarrow> []
      | Some ws \<Rightarrow> (case map_of ws u of None \<Rightarrow> [] | Some w \<Rightarrow> [(''weight'', PyNum w)]))"

definition func_edge ::
  "('v, 'f) dispatcher \<Rightarrow> node_id \<Rightarrow> node_id \<Rightarrow> (node_id \<times> int) list option \<Rightarrow> bool
     \<Rightarrow> ('v, 'f) dispatcher" where
  "func_edge self fun_id u edge_weights inp =
     self\<lparr>dmap := (if inp then add_edge (dmap self) u fun_id (edge_attr edge_weights u)
                   else add_edge (dmap self) fun_id u (edge_attr edge_weights u))\<rparr>"

fun add_func_edges ::
  "'f env \<Rightarrow> ('v, 'f) dispatcher \<Rightarrow> node_id \<Rightarrow> node_id list \<Rightarrow> (node_id \<times> int) list option
     \<Rightarrow> bool \<Rightarrow> node_id list \<Rightarrow> (exn + node_id list) \<times> ('v, 'f) dispatcher" where
  "add_func_edges env self fun_id [] edge_weights inp data_nodes = (Inr data_nodes, self)"
| "add_func_edges env self fun_id (u # us) edge_weights inp data_nodes =
     (case node_type (dmap self) u of
        Inr t \<Rightarrow>
          if t \<noteq> PyStr ''data''
          then (Inl (ValueError ''Invalid id: not a data node''),
                self\<lparr>dmap := remove_nodes_from (dmap self) (data_nodes @ [fun_id])\<rparr>)
          else add_func_edges env (func_edge self fun_id u edge_weights inp) fun_id us
                 edge_weights inp data_nodes
      | Inl e \<Rightarrow>
          (case add_data env self (data_defaults (Some u)) of
             (Inl e', self') \<Rightarrow> (Inl e', self')
           | (Inr d, self') \<Rightarrow>
               add_func_edges env (func_edge self' fun_id u edge_weights inp) fun_id us
                 edge_weights inp (data_nodes @ [d])))"

text \<open>The arguments of \<^verbatim>\<open>add_function\<close>; \<open>fun_kwargs\<close> are the extra keyword attributes.\<close>

record ('v, 'f) function_args =
  function_id :: "string option"
  fun_function :: "'f option"
  inputs :: "node_id list option"
  outputs :: "node_id list option"
  input_domain :: "'f option"
  fun_weight :: "int option"
  inp_weight :: "(node_id \<times> int) list option"
  out_weight :: "(node_id \<times> int) list option"
  fun_description :: "string option"
  fun_filters :: "'f list"
  fun_kwargs :: "('v, 'f) attrs"

text \<open>\<^verbatim>\<open>if inputs is None\<close>, \<^verbatim>\<open>if outputs is None\<close>: the dummy node is added when absent.\<close>

definition dummy_node ::
  "'f env \<Rightarrow> ('v, 'f) dispatcher \<Rightarrow> token \<Rightarrow> node_id list option
     \<Rightarrow> (exn + node_id list) \<times> ('v, 'f) dispatcher" where
  "dummy_node env self t ids =
     (case ids of
        Some l \<Rightarrow> (Inr l, self)
      | None \<Rightarrow>
          if has_node (dmap self) (Tok t) then (Inr [Tok t], self)
          else (case add_data env self (data_defaults (Some (Tok t))) of
                  (Inl e, self') \<Rightarrow> (Inl e, self')
                | (Inr d, self') \<Rightarrow> (Inr [Tok t], self')))"

definition fun_attr_dict ::
  "nat \<Rightarrow> node_id list \<Rightarrow> node_id list \<Rightarrow> ('v, 'f) function_args \<Rightarrow> ('v, 'f) attrs" where
  "fun_attr_dict idx ins outs a =
     dict_update
       (opt_set ''weight'' (map_option PyNum (fun_weight a))
       (opt_set ''filters'' (if fun_filters a = [] then None else Some (PyFuns (fun_filters a)))
       (opt_set ''description'' (map_option PyStr (fun_description a))
       (opt_set ''input_domain'' (map_option PyFun (input_domain a))
          [(''type'', PyStr ''function''), (''inputs'', PyIds ins), (''outputs'', PyIds outs),
           (''function'', (case fun_function a of None \<Rightarrow> PyNone | Some f \<Rightarrow> PyFun f)),
           (''wait_inputs'', PyBool True), (''index'', PyIndex [idx])]))))
       (fun_kwargs a)"

text \<open>The function name: the requested id, or the name of the function when it has one.\<close>

definition function_name :: "'f env \<Rightarrow> ('v, 'f) function_args \<Rightarrow> exn + string" where
  "function_name env a =
     (case function_id a of
        Some i \<Rightarrow> Inr i
      | None \<Rightarrow>
          (case fun_function a of
             None \<Rightarrow> Inl (ValueError ''Invalid function id'')
           | Some f \<Rightarrow>
               (case func_name env f of
                  None \<Rightarrow> Inl (ValueError ''Invalid function id'')
                | Some n \<Rightarrow> Inr n)))"

text \<open>\<^verbatim>\<open>Dispatcher.add_function\<close>.\<close>

definition add_function ::
  "'f env \<Rightarrow> ('v, 'f) dispatcher \<Rightarrow> ('v, 'f) function_args
     \<Rightarrow> (exn + node_id) \<times> ('v, 'f) dispatcher" where
  "add_function env self a =
     (case dummy_node env self START (inputs a) of
        (Inl e, s1) \<Rightarrow> (Inl e, s1)
      | (Inr ins, s1) \<Rightarrow>
     (case dummy_node env s1 SINK (outputs a) of
        (Inl e, s2) \<Rightarrow> (Inl e, s2)
      | (Inr outs, s2) \<Rightarrow>
          let attr_dict = fun_attr_dict (counter s2) ins outs a;
              s3 = s2\<lparr>counter := Suc (counter s2)\<rparr>
          in (case function_name env a of
                Inl e \<Rightarrow> (Inl e, s3)
              | Inr nm \<Rightarrow>
                  let fun_id = get_unused_node_id (dmap s3) nm;
                      s4 = s3\<lparr>dmap := add_node (dmap s3) fun_id attr_dict\<rparr>
                  in (case add_func_edges env s4 fun_id ins (inp_weight a) True [] of
                        (Inl e, s5) \<Rightarrow> (Inl e, s5)
                      | (Inr n_data, s5) \<Rightarrow>
                          (case add_func_edges env s5 fun_id outs (out_weight a) False n_data of
                             (Inl e, s6) \<Rightarrow> (Inl e, s6)
                           | (Inr nd, s6) \<Rightarrow> (Inr fun_id, s6))))))"

section \<open>What the build functions keep and add\<close>

lemma map_of_dict_update: "map_of (dict_update d e) = map_of d ++ map_of (rev e)"
  unfolding dict_update_def
proof (induction e arbitrary: d)
  case Nil then show ?case by simp
next
  case (Cons x e)
  obtain k v where x: "x = (k, v)" by (cases x)
  show ?case
    by (rule ext) (simp add: x Cons update_conv' map_add_def split: option.splits)
qed

lemma map_of_filter_key:
  "map_of (filter (\<lambda>e. P (fst e)) al) k = (if P k then map_of al k else None)"
  by (induction al) auto

lemma unused_from_fresh: "\<not> has_node g (unused_from g guess n)"
  by (induction g guess n rule: unused_from.induct) (subst unused_from.simps, simp)


lemma get_unused_fresh: "\<not> has_node g (get_unused_node_id g guess)"
  by (simp add: get_unused_node_id_def unused_from_fresh)



lemma node_add_node:
  "map_of (node (add_node g n a)) m =
     (if m = n then Some (case map_of (node g) n of None \<Rightarrow> a | Some old \<Rightarrow> dict_update old a)
      else map_of (node g) m)"
  by (simp add: add_node_def update_conv' split: option.splits)

lemma adj_add_node: "adj (add_node g n a) = adj g"
  by (simp add: add_node_def split: option.splits)

lemma dmap_set_default_value: "dmap (snd (set_default_value s d v x)) = dmap s"
  by (simp add: set_default_value_def split: sum.splits exn.splits)

lemma counter_set_default_value: "counter (snd (set_default_value s d v x)) = counter s"
  by (simp add: set_default_value_def split: sum.splits exn.splits)

lemma node_add_edge:
  "has_node g u \<Longrightarrow> has_node g v \<Longrightarrow> node (add_edge g u v a) = node g"
  by (simp add: add_edge_def Let_def)

lemma node_add_edge_other:
  "map_of (node g) m \<noteq> None \<Longrightarrow> map_of (node (add_edge g u v a)) m = map_of (node g) m"
  by (auto simp: add_edge_def Let_def has_node_def update_conv')

lemma adj_add_edge:
  "map_of (adj (add_edge g u v a)) e =
     (if e = (u, v) then Some (dict_update (case map_of (adj g) (u, v) of None \<Rightarrow> [] | Some d \<Rightarrow> d) a)
      else map_of (adj g) e)"
  by (simp add: add_edge_def Let_def update_conv')

lemma node_drop_node: "map_of (node (drop_node g n)) m = (if m = n then None else map_of (node g) m)"
  by (simp add: drop_node_def delete_conv')

lemma adj_drop_node:
  "map_of (adj (drop_node g n)) e = (if fst e \<noteq> n \<and> snd e \<noteq> n then map_of (adj g) e else None)"
  by (simp add: drop_node_def map_of_filter_key [where P = "\<lambda>e. fst e \<noteq> n \<and> snd e \<noteq> n"])

lemma node_remove_nodes_from:
  "map_of (node (remove_nodes_from g ns)) m = (if m \<in> set ns then None else map_of (node g) m)"
  unfolding remove_nodes_from_def
  by (induction ns arbitrary: g) (auto simp: node_drop_node)

lemma adj_remove_nodes_from:
  "map_of (adj (remove_nodes_from g ns)) e =
     (if fst e \<notin> set ns \<and> snd e \<notin> set ns then map_of (adj g) e else None)"
  unfolding remove_nodes_from_def
  by (induction ns arbitrary: g) (auto simp: adj_drop_node)







lemma data_id_special [simp]: "data_id (special_data env a) = data_id a"
  by (simp add: special_data_def)


lemma fst_store_data:
  "fst (store_data s d at v x) = Inr d' \<Longrightarrow> d' = d"
  by (simp add: store_data_def split: prod.splits option.splits)


lemma add_data_result:
  assumes "data_id a = Some u" "add_data env s a = (Inr d, s')"
  shows "d = u"
  using assms
  by (auto simp: add_data_def Let_def split: sum.splits if_splits dest: fst_store_data [OF fstI])

lemma add_data_untyped:
  assumes "data_id a = Some u" "has_node (dmap s) u" "node_type (dmap s) u = Inl e"
  shows "\<exists>s'. add_data env s a = (Inl e, s') \<and> dmap s' = dmap s"
  using assms by (simp add: add_data_def Let_def)


lemma add_data_new:
  assumes "data_id a = Some u" "node_type (dmap s) u = Inl e" "add_data env s a = (Inr d, s')"
  shows "d = u \<and> \<not> has_node (dmap s) u"
proof -
  have "d = u" using add_data_result [OF assms(1,3)] .
  moreover have "\<not> has_node (dmap s) u"
  proof
    assume "has_node (dmap s) u"
    from add_data_untyped [OF assms(1) this assms(2), of env] assms(3) show False by auto
  qed
  ultimately show ?thesis by simp
qed


lemma node_type_func_edge:
  "map_of (node (dmap s)) m \<noteq> None \<Longrightarrow> node_type (dmap (func_edge s f u ew inp)) m = node_type (dmap s) m"
  by (simp add: func_edge_def node_type_def node_add_edge_other)




lemma map_of_opt_set: "map_of (opt_set k v d) k' = (if k' = k \<and> v \<noteq> None then v else map_of d k')"
  by (cases v) (simp_all add: update_conv')

lemma data_attr_dict_type:
  "map_of (data_kwargs a) ''type'' = None \<Longrightarrow> map_of (data_attr_dict i a) ''type'' = Some (PyStr ''data'')"
proof -
  assume h: "map_of (data_kwargs a) ''type'' = None"
  have "map_of (rev (data_kwargs a)) ''type'' = None"
    using h by (metis map_of_eq_None_iff set_rev)
  then show ?thesis
    by (simp add: data_attr_dict_def map_of_dict_update map_add_def map_of_opt_set)
qed

lemma data_kwargs_special [simp]: "data_kwargs (special_data env a) = data_kwargs a"
  by (simp add: special_data_def)

definition data_typed :: "('v, 'f) digraph \<Rightarrow> node_id \<Rightarrow> bool" where
  "data_typed g n \<longleftrightarrow> node_type g n = Inr (PyStr ''data'')"

lemma data_typed_has_node: "data_typed g n \<Longrightarrow> has_node g n"
  by (auto simp: data_typed_def node_type_def has_node_def split: option.splits)

lemma store_data_fresh:
  assumes "\<not> has_node (dmap s) u" "map_of at ''type'' = Some (PyStr ''data'')"
  shows "\<exists>s1. store_data s u at v x = (Inr u, s1) \<and> dmap s1 = add_node (dmap s) u at"
proof -
  let ?s = "s\<lparr>dmap := add_node (dmap s) u at\<rparr>"
  have nt: "node_type (dmap ?s) u = Inr (PyStr ''data'')"
    using assms by (simp add: node_type_def node_add_node has_node_def)
  obtain e s1 where r: "set_default_value ?s u v x = (e, s1)"
    by (cases "set_default_value ?s u v x")
  have "e = None" using r nt by (auto simp: set_default_value_def split: if_splits)
  moreover have "dmap s1 = add_node (dmap s) u at"
    using dmap_set_default_value [of ?s u v x] r by simp
  ultimately show ?thesis using r by (simp add: store_data_def)
qed

lemma add_data_fresh:
  assumes "\<not> has_node (dmap s) u" "data_id a = Some u" "map_of (data_kwargs a) ''type'' = None"
  shows "\<exists>s1 at. add_data env s a = (Inr u, s1) \<and> dmap s1 = add_node (dmap s) u at \<and>
           map_of at ''type'' = Some (PyStr ''data'')"
proof -
  let ?a = "special_data env a"
  let ?at = "data_attr_dict (counter s) ?a"
  let ?s1 = "s\<lparr>counter := Suc (counter s)\<rparr>"
  have t: "map_of ?at ''type'' = Some (PyStr ''data'')"
    using assms(3) by (simp add: data_attr_dict_type)
  have n: "\<not> has_node (dmap ?s1) u" using assms(1) by simp
  from store_data_fresh [OF n t, of "default_value ?a" "data_dist ?a"]
  obtain s2 where st: "store_data ?s1 u ?at (default_value ?a) (data_dist ?a) = (Inr u, s2)"
    and dm: "dmap s2 = add_node (dmap ?s1) u ?at" by blast
  have hn: "has_node (dmap ?s1) u = False" using assms(1) by simp
  have di: "data_id ?a = Some u" using assms(2) by simp
  have "add_data env s a = store_data ?s1 u ?at (default_value ?a) (data_dist ?a)"
    unfolding add_data_def Let_def di using assms(1) by simp
  with st have "add_data env s a = (Inr u, s2)" by simp
  moreover have "dmap s2 = add_node (dmap s) u ?at" using dm by simp
  ultimately show ?thesis using t by blast
qed

lemma data_typed_add_node_fresh:
  "\<not> has_node g u \<Longrightarrow> map_of at ''type'' = Some (PyStr ''data'') \<Longrightarrow> data_typed (add_node g u at) u"
  by (simp add: data_typed_def node_type_def node_add_node has_node_def)


lemma has_node_add_node: "has_node (add_node g u at) m \<longleftrightarrow> m = u \<or> has_node g m"
  by (auto simp: has_node_def node_add_node)

lemma has_edge_add_node [simp]: "has_edge (add_node g u at) x y = has_edge g x y"
  by (simp add: has_edge_def adj_add_node)

lemma node_func_edge:
  "has_node (dmap s) f \<Longrightarrow> has_node (dmap s) u \<Longrightarrow> node (dmap (func_edge s f u ew inp)) = node (dmap s)"
  by (simp add: func_edge_def node_add_edge)

lemma has_edge_func_edge:
  "has_edge (dmap (func_edge s f u ew inp)) x y \<longleftrightarrow>
     (x, y) = (if inp then (u, f) else (f, u)) \<or> has_edge (dmap s) x y"
  by (cases inp) (simp_all add: func_edge_def has_edge_def adj_add_edge, blast+)

text \<open>What a successful run of the loop leaves behind.\<close>

definition grows :: "('v, 'f) digraph \<Rightarrow> ('v, 'f) digraph \<Rightarrow> bool" where
  "grows g g' \<longleftrightarrow>
     (\<forall>m. has_node g m \<longrightarrow> map_of (node g') m = map_of (node g) m) \<and>
     (\<forall>m. has_node g' m \<and> \<not> has_node g m \<longrightarrow> data_typed g' m) \<and>
     (\<forall>x y. has_edge g x y \<longrightarrow> has_edge g' x y)"

lemma grows_refl: "grows g g"
  by (simp add: grows_def)

lemma grows_has_node: "grows g g' \<Longrightarrow> has_node g m \<Longrightarrow> has_node g' m"
  by (simp add: grows_def has_node_def)

lemma grows_node_type: "grows g g' \<Longrightarrow> has_node g m \<Longrightarrow> node_type g' m = node_type g m"
  by (simp add: grows_def node_type_def)

lemma grows_trans: "grows g g' \<Longrightarrow> grows g' g'' \<Longrightarrow> grows g g''"
  unfolding grows_def
  apply (intro conjI allI impI)
    apply (metis has_node_def)
   apply (metis data_typed_def node_type_def)
  apply blast
  done

lemma grows_add_node_fresh:
  "\<not> has_node g u \<Longrightarrow> map_of at ''type'' = Some (PyStr ''data'') \<Longrightarrow> grows g (add_node g u at)"
  by (auto simp: grows_def node_add_node has_node_add_node data_typed_add_node_fresh)

lemma grows_func_edge:
  "has_node (dmap s) f \<Longrightarrow> has_node (dmap s) u \<Longrightarrow> grows (dmap s) (dmap (func_edge s f u ew inp))"
  by (auto simp: grows_def node_func_edge has_edge_func_edge has_node_def)

definition dir_edge :: "bool \<Rightarrow> ('v, 'f) digraph \<Rightarrow> node_id \<Rightarrow> node_id \<Rightarrow> bool" where
  "dir_edge inp g u f = (if inp then has_edge g u f else has_edge g f u)"

lemma dir_edge_func_edge: "dir_edge inp (dmap (func_edge s f u ew inp)) u f"
  by (simp add: dir_edge_def has_edge_func_edge)

lemma grows_dir_edge: "grows g g' \<Longrightarrow> dir_edge inp g u f \<Longrightarrow> dir_edge inp g' u f"
  by (simp add: grows_def dir_edge_def)

lemma grows_data_typed: "grows g g' \<Longrightarrow> data_typed g m \<Longrightarrow> data_typed g' m"
  using grows_node_type [of g g' m] data_typed_has_node [of g m] by (simp add: data_typed_def)

lemma data_defaults_simps [simp]:
  "data_id (data_defaults d) = d" "data_kwargs (data_defaults d) = []"
  by (simp_all add: data_defaults_def)

lemma node_type_Inr_has_node: "node_type g u = Inr t \<Longrightarrow> has_node g u"
  by (auto simp: node_type_def has_node_def split: option.splits)



lemma add_func_edges_success:
  assumes "add_func_edges env s f us ew inp dn = (Inr dn', s')" "has_node (dmap s) f"
  shows "grows (dmap s) (dmap s') \<and> (\<forall>u\<in>set us. data_typed (dmap s') u \<and> dir_edge inp (dmap s') u f)"
  using assms
proof (induction us arbitrary: s dn)
  case Nil
  then show ?case by (simp add: grows_refl)
next
  case (Cons u us)
  show ?case
  proof (cases "node_type (dmap s) u")
    case (Inr t)
    with Cons.prems(1) have t: "t = PyStr ''data''" by (auto split: if_splits)
    let ?s1 = "func_edge s f u ew inp"
    have hu: "has_node (dmap s) u" using Inr by (rule node_type_Inr_has_node)
    have g1: "grows (dmap s) (dmap ?s1)" using Cons.prems(2) hu by (rule grows_func_edge)
    have r: "add_func_edges env ?s1 f us ew inp dn = (Inr dn', s')"
      using Cons.prems(1) Inr t by simp
    from Cons.IH [OF r grows_has_node [OF g1 Cons.prems(2)]]
    have g2: "grows (dmap ?s1) (dmap s')"
      and rest: "\<forall>u\<in>set us. data_typed (dmap s') u \<and> dir_edge inp (dmap s') u f" by simp_all
    have "data_typed (dmap s) u" using Inr t by (simp add: data_typed_def)
    then have "data_typed (dmap s') u" using grows_trans [OF g1 g2] grows_data_typed by blast
    moreover have "dir_edge inp (dmap s') u f"
      using grows_dir_edge [OF g2 dir_edge_func_edge] .
    ultimately show ?thesis using rest grows_trans [OF g1 g2] by simp
  next
    case (Inl e)
    obtain r sa where ad: "add_data env s (data_defaults (Some u)) = (r, sa)"
      by (cases "add_data env s (data_defaults (Some u))")
    from Cons.prems(1) Inl ad obtain d where rd: "r = Inr d"
      by (cases r) auto
    from add_data_new [OF _ Inl ad [unfolded rd]] have du: "d = u" and nu: "\<not> has_node (dmap s) u"
      by simp_all
    from add_data_fresh [OF nu, of "data_defaults (Some u)" env] ad rd
    obtain at where dm: "dmap sa = add_node (dmap s) u at" and ty: "map_of at ''type'' = Some (PyStr ''data'')"
      by auto
    have g0: "grows (dmap s) (dmap sa)" using dm grows_add_node_fresh [OF nu ty] by simp
    have hu: "has_node (dmap sa) u" by (simp add: dm has_node_add_node)
    have hf: "has_node (dmap sa) f" using grows_has_node [OF g0 Cons.prems(2)] .
    let ?s1 = "func_edge sa f u ew inp"
    have g1: "grows (dmap sa) (dmap ?s1)" using hf hu by (rule grows_func_edge)
    have r: "add_func_edges env ?s1 f us ew inp (dn @ [d]) = (Inr dn', s')"
      using Cons.prems(1) Inl ad rd by simp
    from Cons.IH [OF r grows_has_node [OF g1 hf]]
    have g2: "grows (dmap ?s1) (dmap s')"
      and rest: "\<forall>u\<in>set us. data_typed (dmap s') u \<and> dir_edge inp (dmap s') u f" by simp_all
    have "data_typed (dmap sa) u" using dm data_typed_add_node_fresh [OF nu ty] by simp
    then have "data_typed (dmap s') u" using grows_trans [OF g1 g2] grows_data_typed by blast
    moreover have "dir_edge inp (dmap s') u f"
      using grows_dir_edge [OF g2 dir_edge_func_edge] .
    ultimately show ?thesis using rest grows_trans [OF g0 grows_trans [OF g1 g2]] by simp
  qed
qed




definition io_list :: "token \<Rightarrow> node_id list option \<Rightarrow> node_id list" where
  "io_list t ids = (case ids of None \<Rightarrow> [Tok t] | Some l \<Rightarrow> l)"

lemma io_list_simps [simp]: "io_list t None = [Tok t]" "io_list t (Some l) = l"
  by (simp_all add: io_list_def)

lemma dummy_node_result: "dummy_node env s t ids = (Inr l, s1) \<Longrightarrow> l = io_list t ids"
  by (auto simp: dummy_node_def io_list_def split: option.splits if_splits prod.splits sum.splits)




lemma fun_attr_dict_io:
  assumes "map_of (fun_kwargs a) k = None" "k = ''inputs'' \<or> k = ''outputs''"
  shows "map_of (fun_attr_dict c ins outs a) k = Some (PyIds (if k = ''inputs'' then ins else outs))"
proof -
  have "map_of (rev (fun_kwargs a)) k = None"
    using assms(1) by (metis map_of_eq_None_iff set_rev)
  then show ?thesis using assms(2)
    by (auto simp: fun_attr_dict_def map_of_dict_update map_add_def map_of_opt_set)
qed

lemma add_function_success:
  assumes "add_function env self a = (Inr i, s')"
  shows "(\<exists>c. map_of (node (dmap s')) i = Some (fun_attr_dict c (io_list START (inputs a)) (io_list SINK (outputs a)) a)) \<and>
         (\<forall>u\<in>set (io_list START (inputs a)). data_typed (dmap s') u \<and> has_edge (dmap s') u i) \<and>
         (\<forall>u\<in>set (io_list SINK (outputs a)). data_typed (dmap s') u \<and> has_edge (dmap s') i u)"
proof -
  obtain r1 s1 where d1: "dummy_node env self START (inputs a) = (r1, s1)"
    by (cases "dummy_node env self START (inputs a)")
  with assms obtain ins where r1: "r1 = Inr ins" by (cases r1) (auto simp: add_function_def)
  have ins: "ins = io_list START (inputs a)" using d1 r1 dummy_node_result by blast
  obtain r2 s2 where d2: "dummy_node env s1 SINK (outputs a) = (r2, s2)"
    by (cases "dummy_node env s1 SINK (outputs a)")
  with assms d1 r1 obtain outs where r2: "r2 = Inr outs" by (cases r2) (auto simp: add_function_def)
  have outs: "outs = io_list SINK (outputs a)" using d2 r2 dummy_node_result by blast
  let ?s3 = "s2\<lparr>counter := Suc (counter s2)\<rparr>"
  from assms d1 r1 d2 r2 obtain nm where nm: "function_name env a = Inr nm"
    by (cases "function_name env a") (auto simp: add_function_def Let_def)
  let ?fid = "get_unused_node_id (dmap ?s3) nm"
  let ?at = "fun_attr_dict (counter s2) ins outs a"
  let ?s4 = "?s3\<lparr>dmap := add_node (dmap ?s3) ?fid ?at\<rparr>"
  obtain r5 s5 where e1: "add_func_edges env ?s4 ?fid ins (inp_weight a) True [] = (r5, s5)"
    by (cases "add_func_edges env ?s4 ?fid ins (inp_weight a) True []")
  with assms d1 r1 d2 r2 nm obtain n_data where r5: "r5 = Inr n_data"
    by (cases r5) (auto simp: add_function_def Let_def)
  obtain r6 s6 where e2: "add_func_edges env s5 ?fid outs (out_weight a) False n_data = (r6, s6)"
    by (cases "add_func_edges env s5 ?fid outs (out_weight a) False n_data")
  with assms d1 r1 d2 r2 nm e1 r5 obtain nd where r6: "r6 = Inr nd"
    by (cases r6) (auto simp: add_function_def Let_def)
  from assms d1 r1 d2 r2 nm e1 r5 e2 r6 have res: "i = ?fid" "s' = s6"
    by (auto simp: add_function_def Let_def)
  have fresh: "\<not> has_node (dmap ?s3) ?fid" by (rule get_unused_fresh)
  have n4: "map_of (node (dmap ?s4)) ?fid = Some ?at"
    using fresh by (simp add: node_add_node has_node_def)
  then have h4: "has_node (dmap ?s4) ?fid" by (simp add: has_node_def)
  from add_func_edges_success [OF e1 [unfolded r5] h4]
  have g5: "grows (dmap ?s4) (dmap s5)"
    and i5: "\<forall>u\<in>set ins. data_typed (dmap s5) u \<and> dir_edge True (dmap s5) u ?fid" by simp_all
  have h5: "has_node (dmap s5) ?fid" using grows_has_node [OF g5 h4] .
  from add_func_edges_success [OF e2 [unfolded r6] h5]
  have g6: "grows (dmap s5) (dmap s6)"
    and o6: "\<forall>u\<in>set outs. data_typed (dmap s6) u \<and> dir_edge False (dmap s6) u ?fid" by simp_all
  have "map_of (node (dmap s6)) ?fid = Some ?at"
    using g5 g6 h4 h5 n4 by (simp add: grows_def)
  moreover have "\<forall>u\<in>set ins. data_typed (dmap s6) u \<and> has_edge (dmap s6) u ?fid"
    using i5 g6 grows_data_typed [OF g6] by (auto simp: dir_edge_def grows_def)
  moreover have "\<forall>u\<in>set outs. data_typed (dmap s6) u \<and> has_edge (dmap s6) ?fid u"
    using o6 by (simp add: dir_edge_def)
  ultimately show ?thesis unfolding res ins [symmetric] outs [symmetric] by blast
qed



section \<open>Function nodes: inputs, outputs and ids\<close>

definition env0 :: "string env" where
  "env0 = \<lparr>bypass = ''bypass'', autoplot_callback = ''autoplot_callback'',
           autoplot_function = ''autoplot_function'', token_doc = (\<lambda>t. []),
           func_name = (\<lambda>f. Some f), sorted_ids = (\<lambda>l. l)\<rparr>"

definition fun_defaults ::
  "string option \<Rightarrow> node_id list option \<Rightarrow> node_id list option \<Rightarrow> ('v, 'f) function_args" where
  "fun_defaults i ins outs =
     \<lparr>function_id = i, fun_function = None, inputs = ins, outputs = outs, input_domain = None,
      fun_weight = None, inp_weight = None, out_weight = None, fun_description = None,
      fun_filters = [], fun_kwargs = []\<rparr>"

definition node_attr :: "('v, 'f) digraph \<Rightarrow> node_id \<Rightarrow> string \<Rightarrow> ('v, 'f) pyobj option" where
  "node_attr g n k = (case map_of (node g) n of None \<Rightarrow> None | Some at \<Rightarrow> map_of at k)"

text \<open>
  C8 (as amended): a call of \<^verbatim>\<open>add_function\<close> that returns stores on the new function node the
  input list \<open>io_list START (inputs a)\<close> and the output list \<open>io_list SINK (outputs a)\<close>: the
  single node \<^verbatim>\<open>START\<close> when the inputs are omitted, the single node \<^verbatim>\<open>SINK\<close> when the
  outputs are omitted, and the list that was given otherwise. Every listed id is a data node
  of the graph afterwards, with an edge into the function node for an input and an edge out of
  it for an output; so an omitted argument leaves the dummy node in the graph, joined to the
  function node. The keyword attributes must not override \<^verbatim>\<open>inputs\<close> or \<^verbatim>\<open>outputs\<close>.
\<close>

theorem add_function_inputs_outputs:
  assumes "add_function env self a = (Inr i, s')"
    and "map_of (fun_kwargs a) ''inputs'' = None" and "map_of (fun_kwargs a) ''outputs'' = None"
  shows "node_attr (dmap s') i ''inputs'' = Some (PyIds (io_list START (inputs a))) \<and>
         node_attr (dmap s') i ''outputs'' = Some (PyIds (io_list SINK (outputs a))) \<and>
         (\<forall>u\<in>set (io_list START (inputs a)). data_typed (dmap s') u \<and> has_edge (dmap s') u i) \<and>
         (\<forall>u\<in>set (io_list SINK (outputs a)). data_typed (dmap s') u \<and> has_edge (dmap s') i u)"
proof -
  from add_function_success [OF assms(1)]
  obtain c where n: "map_of (node (dmap s')) i =
      Some (fun_attr_dict c (io_list START (inputs a)) (io_list SINK (outputs a)) a)"
    and e: "\<forall>u\<in>set (io_list START (inputs a)). data_typed (dmap s') u \<and> has_edge (dmap s') u i"
       "\<forall>u\<in>set (io_list SINK (outputs a)). data_typed (dmap s') u \<and> has_edge (dmap s') i u"
    by blast
  have "node_attr (dmap s') i ''inputs'' = Some (PyIds (io_list START (inputs a)))"
    using n fun_attr_dict_io [OF assms(2), of c "io_list START (inputs a)" "io_list SINK (outputs a)"]
    by (simp add: node_attr_def)
  moreover have "node_attr (dmap s') i ''outputs'' = Some (PyIds (io_list SINK (outputs a)))"
    using n fun_attr_dict_io [OF assms(3), of c "io_list START (inputs a)" "io_list SINK (outputs a)"]
    by (simp add: node_attr_def)
  ultimately show ?thesis using e by simp
qed

lemma fun_defaults_simps [simp]:
  "function_id (fun_defaults i ins outs) = i" "inputs (fun_defaults i ins outs) = ins"
  "outputs (fun_defaults i ins outs) = outs" "fun_kwargs (fun_defaults i ins outs) = []"
  "fun_function (fun_defaults i ins outs) = None"
  by (simp_all add: fun_defaults_def)

theorem add_function_inputs_outputs_witness:
  "fst (add_function env0 dsp_a_f (fun_defaults (Some ''g'') None None)) = Inr (Name ''g'') \<and>
   node_attr (dmap (snd (add_function env0 dsp_a_f (fun_defaults (Some ''g'') None None)))) (Name ''g'') ''inputs''
     = Some (PyIds [Tok START]) \<and>
   node_attr (dmap (snd (add_function env0 dsp_a_f (fun_defaults (Some ''g'') None None)))) (Name ''g'') ''outputs''
     = Some (PyIds [Tok SINK]) \<and>
   has_edge (dmap (snd (add_function env0 dsp_a_f (fun_defaults (Some ''g'') None None)))) (Tok START) (Name ''g'') \<and>
   has_edge (dmap (snd (add_function env0 dsp_a_f (fun_defaults (Some ''g'') None None)))) (Name ''g'') (Tok SINK)"
proof -
  let ?r = "add_function env0 dsp_a_f (fun_defaults (Some ''g'') None None)"
  have f: "fst ?r = Inr (Name ''g'')" by code_simp
  then have e: "?r = (Inr (Name ''g''), snd ?r)" by (metis prod.collapse)
  from add_function_inputs_outputs [OF e] f show ?thesis by simp
qed

definition dsp_new :: "(int, string) dispatcher" where
  "dsp_new = empty_dsp ''d'' 0"

text \<open>
  C8 as stated fails: the dummy nodes are used only when an argument is \<^verbatim>\<open>None\<close>. With the
  empty lists given for both, the function node has no input, no output and no edge.
\<close>

theorem add_function_empty_inputs_counterexample:
  "fst (add_function env0 dsp_new (fun_defaults (Some ''f'') (Some []) (Some [])))
     = Inr (Name ''f'') \<and>
   node_attr (dmap (snd (add_function env0 dsp_new (fun_defaults (Some ''f'') (Some []) (Some [])))))
     (Name ''f'') ''inputs'' = Some (PyIds []) \<and>
   node_attr (dmap (snd (add_function env0 dsp_new (fun_defaults (Some ''f'') (Some []) (Some [])))))
     (Name ''f'') ''outputs'' = Some (PyIds []) \<and>
   adj (dmap (snd (add_function env0 dsp_new (fun_defaults (Some ''f'') (Some []) (Some []))))) = []"
  by code_simp







section \<open>Sub-dispatcher nodes\<close>















section \<open>Node kinds\<close>


























text \<open>
  The \<^verbatim>\<open>type\<close> keyword is excluded above because \<^verbatim>\<open>add_data\<close> updates the attribute dict
  with its keyword attributes before it stores the node.
\<close>

lemma add_data_type_keyword:
  "node_type (dmap dsp_a_f) (Name ''a'') = Inr (PyStr ''data'') \<and>
   node_type (dmap (snd (add_data env0 dsp_a_f
      ((data_defaults (Some (Name ''a'')))\<lparr>data_kwargs := [(''type'', PyStr ''function'')]\<rparr>)))) (Name ''a'')
     = Inr (PyStr ''function'')"
  by code_simp

section \<open>The stopper\<close>

text \<open>
  Events (\<^verbatim>\<open>threading.Event\<close>) are objects: an event is known by its reference, and the store
  of events holds the flag of each. The class body of \<^verbatim>\<open>Dispatcher\<close> creates one event, once,
  and binds it to the class attribute \<^verbatim>\<open>stopper\<close>.
\<close>

type_synonym events = "nat \<Rightarrow> bool"

definition Dispatcher_stopper :: nat where
  "Dispatcher_stopper = 0"

definition is_set :: "events \<Rightarrow> nat \<Rightarrow> bool" where
  "is_set es ev = es ev"

definition event_set :: "events \<Rightarrow> nat \<Rightarrow> events" where
  "event_set es ev = es(ev := True)"

text \<open>The arguments of \<^verbatim>\<open>Dispatcher.__init__\<close>; \<open>None\<close> is Python's \<^verbatim>\<open>None\<close>.\<close>

record ('v, 'f) init_args =
  init_dmap :: "('v, 'f) digraph option"
  init_name :: string
  init_default_values :: "(node_id \<times> ('v, 'f) dflt) list option"
  init_raises :: bool
  init_description :: string
  init_stopper :: "nat option"

text \<open>
  \<^verbatim>\<open>Dispatcher.__init__\<close>. A graph without nodes is false in \<^verbatim>\<open>dmap or DiGraph()\<close>, an empty
  dict is false in \<^verbatim>\<open>default_values or {}\<close>, and an event is always true in
  \<^verbatim>\<open>stopper or self.__class__.stopper\<close>.
\<close>

definition Dispatcher_init :: "('v, 'f) init_args \<Rightarrow> ('v, 'f) dispatcher" where
  "Dispatcher_init a =
     \<lparr>dmap = (case init_dmap a of
                None \<Rightarrow> \<lparr>node = [], adj = []\<rparr>
              | Some g \<Rightarrow> if node g = [] then \<lparr>node = [], adj = []\<rparr> else g),
      name = init_name a,
      doc = init_description a,
      default_values = (case init_default_values a of None \<Rightarrow> [] | Some d \<Rightarrow> d),
      weight = ''weight'',
      raises = init_raises a,
      stopper = (case init_stopper a of None \<Rightarrow> Dispatcher_stopper | Some ev \<Rightarrow> ev),
      counter = 0\<rparr>"

text \<open>
  The keyword arguments of \<^verbatim>\<open>copy_structure\<close>: a key that is absent is \<open>None\<close>, a key that
  is given holds its value.
\<close>

record ('v, 'f) copy_kwargs =
  kw_dmap :: "('v, 'f) digraph option option"
  kw_name :: "string option"
  kw_default_values :: "(node_id \<times> ('v, 'f) dflt) list option option"
  kw_raises :: "bool option"
  kw_description :: "string option"
  kw_stopper :: "nat option option"

text \<open>
  \<^verbatim>\<open>Dispatcher.copy_structure\<close>: the base dict holds the description, the name, the stopper
  and \<^verbatim>\<open>raises\<close> of the dispatcher, the keyword arguments update it, and the class is
  called on the result.
\<close>

definition copy_structure :: "('v, 'f) dispatcher \<Rightarrow> ('v, 'f) copy_kwargs \<Rightarrow> ('v, 'f) dispatcher" where
  "copy_structure self kw =
     (Dispatcher_init
        \<lparr>init_dmap = (case kw_dmap kw of None \<Rightarrow> None | Some g \<Rightarrow> g),
         init_name = (case kw_name kw of None \<Rightarrow> name self | Some n \<Rightarrow> n),
         init_default_values = (case kw_default_values kw of None \<Rightarrow> None | Some d \<Rightarrow> d),
         init_raises = (case kw_raises kw of None \<Rightarrow> raises self | Some r \<Rightarrow> r),
         init_description = (case kw_description kw of None \<Rightarrow> doc self | Some d \<Rightarrow> d),
         init_stopper = (case kw_stopper kw of None \<Rightarrow> Some (stopper self) | Some ev \<Rightarrow> ev)\<rparr>)
     \<lparr>weight := weight self\<rparr>"

text \<open>The dispatchers derived from a root by a chain of \<^verbatim>\<open>copy_structure\<close> calls.\<close>

definition derived :: "('v, 'f) dispatcher \<Rightarrow> ('v, 'f) copy_kwargs list \<Rightarrow> ('v, 'f) dispatcher" where
  "derived root kws = foldl copy_structure root kws"

lemma stopper_copy_structure:
  "kw_stopper kw = None \<Longrightarrow> stopper (copy_structure self kw) = stopper self"
  by (simp add: copy_structure_def Dispatcher_init_def)

lemma stopper_derived:
  "\<forall>kw\<in>set kws. kw_stopper kw = None \<Longrightarrow> stopper (derived root kws) = stopper root"
  unfolding derived_def
  by (induction kws arbitrary: root) (simp_all add: stopper_copy_structure)

text \<open>
  C9: a dispatcher constructed without a stopper argument is bound to the event of the class
  attribute; \<^verbatim>\<open>copy_structure\<close> without a stopper keyword hands the stopper of the dispatcher,
  the same reference, to the copy; so every dispatcher derived from such a root by
  \<^verbatim>\<open>copy_structure\<close> calls without a stopper of their own is bound to the class event, and
  once that event is set, \<^verbatim>\<open>is_set\<close> holds on the stopper of each of them.
\<close>

theorem shared_stopper:
  "(init_stopper a = None \<longrightarrow> stopper (Dispatcher_init a) = Dispatcher_stopper) \<and>
   (kw_stopper kw = None \<longrightarrow> stopper (copy_structure self kw) = stopper self) \<and>
   (init_stopper a = None \<and> (\<forall>k\<in>set kws. kw_stopper k = None) \<longrightarrow>
      stopper (derived (Dispatcher_init a) kws) = Dispatcher_stopper \<and>
      is_set (event_set es Dispatcher_stopper) (stopper (derived (Dispatcher_init a) kws)))"
proof (intro conjI impI)
  assume "init_stopper a = None"
  then show "stopper (Dispatcher_init a) = Dispatcher_stopper" by (simp add: Dispatcher_init_def)
next
  assume "kw_stopper kw = None"
  then show "stopper (copy_structure self kw) = stopper self" by (rule stopper_copy_structure)
next
  assume h: "init_stopper a = None \<and> (\<forall>k\<in>set kws. kw_stopper k = None)"
  then show s: "stopper (derived (Dispatcher_init a) kws) = Dispatcher_stopper"
    by (simp add: stopper_derived Dispatcher_init_def)
  show "is_set (event_set es Dispatcher_stopper) (stopper (derived (Dispatcher_init a) kws))"
    by (simp add: s is_set_def event_set_def)
qed

definition init_defaults :: "(int, string) init_args" where
  "init_defaults = \<lparr>init_dmap = None, init_name = [], init_default_values = None,
                    init_raises = False, init_description = [], init_stopper = None\<rparr>"

definition no_kwargs :: "(int, string) copy_kwargs" where
  "no_kwargs = \<lparr>kw_dmap = None, kw_name = None, kw_default_values = None, kw_raises = None,
                kw_description = None, kw_stopper = None\<rparr>"

theorem shared_stopper_witness:
  "init_stopper init_defaults = None \<and> kw_stopper no_kwargs = None \<and>
   stopper (Dispatcher_init init_defaults) = Dispatcher_stopper \<and>
   stopper (copy_structure (Dispatcher_init (init_defaults\<lparr>init_stopper := Some 5\<rparr>)) no_kwargs) = 5 \<and>
   is_set (event_set (\<lambda>ev. False) Dispatcher_stopper)
     (stopper (derived (Dispatcher_init init_defaults) [no_kwargs, no_kwargs\<lparr>kw_name := Some ''sub''\<rparr>]))"
proof -
  have h: "init_stopper init_defaults = None" "kw_stopper no_kwargs = None"
    by (simp_all add: init_defaults_def no_kwargs_def)
  have s5: "stopper (Dispatcher_init (init_defaults\<lparr>init_stopper := Some 5\<rparr>)) = 5"
    by (simp add: Dispatcher_init_def)
  from shared_stopper [of init_defaults no_kwargs "Dispatcher_init (init_defaults\<lparr>init_stopper := Some 5\<rparr>)"
      "[no_kwargs, no_kwargs\<lparr>kw_name := Some ''sub''\<rparr>]" "\<lambda>ev. False"] h s5
  show ?thesis by (simp add: is_set_def event_set_def)
qed

section \<open>Dispatchers called like functions\<close>

text \<open>
  A dict of data values, and a solution, which is a dict of data values too. The dispatch
  engine (\<^verbatim>\<open>Solution\<close>, \<^verbatim>\<open>utils/sol.py\<close>) is not among the sources: the wrappers take the
  run of the engine as a parameter, from the input values to the solution it leaves or the
  exception \<open>'e\<close> it raises.
\<close>

type_synonym ('v, 'f) data_values = "(node_id \<times> ('v, 'f) pyobj) list"

text \<open>What a call raises, and what it returns.\<close>

datatype ('v, 'f, 'e) call_exn =
    DispatcherError "('v, 'f) data_values"
  | CallTypeError string string
  | CallKeyError
  | Raised 'e

datatype ('v, 'f) returned =
    Whole "('v, 'f) data_values"
  | AsList "('v, 'f) pyobj list"
  | AsTuple "('v, 'f) pyobj list"
  | AsDict "('v, 'f) data_values"
  | Single "('v, 'f) pyobj"

text \<open>
  \<^verbatim>\<open>combine_dicts(*dicts)\<close> without a base: one dict is copied, several are merged from the
  left, the empty ones skipped.
\<close>

definition combine_dicts :: "('k \<times> 'a) list list \<Rightarrow> ('k \<times> 'a) list" where
  "combine_dicts dicts =
     (case dicts of
        [d] \<Rightarrow> d
      | _ \<Rightarrow> foldl (\<lambda>cd d. if d = [] then cd else dict_update cd d) [] dicts)"

text \<open>\<^verbatim>\<open>[dictionary[k] for k in keys]\<close>: the first missing key raises \<^verbatim>\<open>KeyError\<close>.\<close>

fun lookups :: "('k \<times> 'a) list \<Rightarrow> 'k list \<Rightarrow> 'a list option" where
  "lookups d [] = Some []"
| "lookups d (k # ks) =
     (case map_of d k of
        None \<Rightarrow> None
      | Some v \<Rightarrow> (case lookups d ks of None \<Rightarrow> None | Some vs \<Rightarrow> Some (v # vs)))"

text \<open>
  \<^verbatim>\<open>selector(keys, dictionary, output_type=...)\<close> as \<^verbatim>\<open>_return\<close> calls it (no copy, no
  missing key allowed); \<^verbatim>\<open>bypass\<close> gives its argument when it has one, the tuple of its
  arguments otherwise.
\<close>

definition selector ::
  "node_id list \<Rightarrow> ('v, 'f) data_values \<Rightarrow> string \<Rightarrow> ('v, 'f, 'e) call_exn + ('v, 'f) returned" where
  "selector keys dictionary output_type =
     (case lookups dictionary keys of
        None \<Rightarrow> Inl CallKeyError
      | Some vs \<Rightarrow>
          if output_type = ''list'' then Inr (AsList vs)
          else if output_type = ''values'' then
            (case vs of [v] \<Rightarrow> Inr (Single v) | _ \<Rightarrow> Inr (AsTuple vs))
          else Inr (AsDict (dict_update [] (zip keys vs))))"

text \<open>
  \<^verbatim>\<open>SubDispatch._return\<close>; iterating the outputs \<^verbatim>\<open>None\<close> is a \<^verbatim>\<open>TypeError\<close>, which the
  handler of \<^verbatim>\<open>KeyError\<close> lets through.
\<close>

definition sub_return ::
  "node_id list option \<Rightarrow> string \<Rightarrow> ('v, 'f) data_values \<Rightarrow> ('v, 'f, 'e) call_exn + ('v, 'f) returned" where
  "sub_return outs output_type solution =
     (if output_type \<noteq> ''all'' then
        (case outs of
           None \<Rightarrow> Inl (CallTypeError ''NoneType'' ''object is not iterable'')
         | Some os \<Rightarrow>
             (case selector os solution output_type of
                Inl CallKeyError \<Rightarrow> Inl (DispatcherError solution)
              | r \<Rightarrow> r))
      else Inr (Whole solution))"

text \<open>\<^verbatim>\<open>SubDispatch.__call__\<close> on the input dictionaries.\<close>

definition sub_dispatch_call ::
  "(('v, 'f) data_values \<Rightarrow> 'e + ('v, 'f) data_values) \<Rightarrow> node_id list option \<Rightarrow> string
     \<Rightarrow> ('v, 'f) data_values list \<Rightarrow> ('v, 'f, 'e) call_exn + ('v, 'f) returned" where
  "sub_dispatch_call dispatch outs output_type input_dicts =
     (case dispatch (combine_dicts input_dicts) of
        Inl e \<Rightarrow> Inl (Raised e)
      | Inr solution \<Rightarrow> sub_return outs output_type solution)"

lemma lookups_Some_iff: "lookups d ks \<noteq> None \<longleftrightarrow> (\<forall>k\<in>set ks. map_of d k \<noteq> None)"
  by (induction ks) (auto split: option.splits)

lemma lookups_values: "lookups d ks = Some vs \<Longrightarrow> vs = map (\<lambda>k. the (map_of d k)) ks"
  by (induction ks arbitrary: vs) (auto split: option.splits)

lemma lookups_present:
  "\<forall>k\<in>set ks. map_of d k \<noteq> None \<Longrightarrow> lookups d ks = Some (map (\<lambda>k. the (map_of d k)) ks)"
  using lookups_Some_iff [of d ks] lookups_values [of d ks] by auto

text \<open>
  C4 (as amended): a call merges its input dictionaries and runs dispatch; an exception of
  the dispatch passes through. On the solution of the dispatch: with the output type
  \<^verbatim>\<open>all\<close> the call returns the whole solution, whether or not the named outputs are in it;
  with another output type and every named output in the solution it returns the values of
  the named outputs in declared order as a list (\<^verbatim>\<open>list\<close>), as a single scalar when one
  output is named and as a tuple otherwise (\<^verbatim>\<open>values\<close>), or the dict of the named outputs
  (any other type); with another output type and a named output absent from the solution it
  raises \<^verbatim>\<open>DispatcherError\<close> carrying that solution.
\<close>

theorem sub_dispatch_call_spec:
  assumes "dispatch (combine_dicts input_dicts) = Inr solution"
  shows "(output_type = ''all'' \<longrightarrow>
            sub_dispatch_call dispatch outs output_type input_dicts = Inr (Whole solution)) \<and>
         (output_type \<noteq> ''all'' \<and> outs = Some os \<and> (\<exists>k\<in>set os. map_of solution k = None) \<longrightarrow>
            sub_dispatch_call dispatch outs output_type input_dicts = Inl (DispatcherError solution)) \<and>
         (output_type \<noteq> ''all'' \<and> outs = Some os \<and> (\<forall>k\<in>set os. map_of solution k \<noteq> None) \<longrightarrow>
            sub_dispatch_call dispatch outs output_type input_dicts =
              (if output_type = ''list'' then Inr (AsList (map (\<lambda>k. the (map_of solution k)) os))
               else if output_type = ''values'' then
                 (case os of
                    [k] \<Rightarrow> Inr (Single (the (map_of solution k)))
                  | _ \<Rightarrow> Inr (AsTuple (map (\<lambda>k. the (map_of solution k)) os)))
               else Inr (AsDict (dict_update [] (map (\<lambda>k. (k, the (map_of solution k))) os)))))"
proof (intro conjI impI)
  assume "output_type = ''all''"
  with assms show "sub_dispatch_call dispatch outs output_type input_dicts = Inr (Whole solution)"
    by (simp add: sub_dispatch_call_def sub_return_def)
next
  assume h: "output_type \<noteq> ''all'' \<and> outs = Some os \<and> (\<exists>k\<in>set os. map_of solution k = None)"
  then have "lookups solution os = None" using lookups_Some_iff [of solution os] by auto
  with assms h show "sub_dispatch_call dispatch outs output_type input_dicts = Inl (DispatcherError solution)"
    by (simp add: sub_dispatch_call_def sub_return_def selector_def)
next
  assume h: "output_type \<noteq> ''all'' \<and> outs = Some os \<and> (\<forall>k\<in>set os. map_of solution k \<noteq> None)"
  then have l: "lookups solution os = Some (map (\<lambda>k. the (map_of solution k)) os)"
    by (simp add: lookups_present)
  have z: "zip os (map (\<lambda>k. the (map_of solution k)) os) = map (\<lambda>k. (k, the (map_of solution k))) os"
    by (induction os) simp_all
  from assms h l z
  show "sub_dispatch_call dispatch outs output_type input_dicts =
              (if output_type = ''list'' then Inr (AsList (map (\<lambda>k. the (map_of solution k)) os))
               else if output_type = ''values'' then
                 (case os of
                    [k] \<Rightarrow> Inr (Single (the (map_of solution k)))
                  | _ \<Rightarrow> Inr (AsTuple (map (\<lambda>k. the (map_of solution k)) os)))
               else Inr (AsDict (dict_update [] (map (\<lambda>k. (k, the (map_of solution k))) os))))"
    by (cases os rule: list.exhaust [case_names Nil Cons])
       (auto simp: sub_dispatch_call_def sub_return_def selector_def split: list.splits)
qed

text \<open>A dispatch that reaches \<^verbatim>\<open>b\<close> from \<^verbatim>\<open>a\<close> and nothing else.\<close>

definition dispatch0 :: "(int, string) data_values \<Rightarrow> unit + (int, string) data_values" where
  "dispatch0 i = (case map_of i (Name ''a'') of
                    None \<Rightarrow> Inr i
                  | Some v \<Rightarrow> Inr (AList.update (Name ''b'') v i))"

theorem sub_dispatch_call_spec_witness:
  "dispatch0 (combine_dicts [[(Name ''a'', PyVal 1)], [(Name ''z'', PyVal 2)]])
     = Inr [(Name ''a'', PyVal 1), (Name ''z'', PyVal 2), (Name ''b'', PyVal 1)] \<and>
   sub_dispatch_call dispatch0 (Some [Name ''b'', Name ''a'']) ''list''
       [[(Name ''a'', PyVal 1)], [(Name ''z'', PyVal 2)]] = Inr (AsList [PyVal 1, PyVal 1]) \<and>
   sub_dispatch_call dispatch0 (Some [Name ''b'']) ''values''
       [[(Name ''a'', PyVal 1)], [(Name ''z'', PyVal 2)]] = Inr (Single (PyVal 1)) \<and>
   sub_dispatch_call dispatch0 (Some [Name ''b'', Name ''c'']) ''dict''
       [[(Name ''a'', PyVal 1)], [(Name ''z'', PyVal 2)]]
     = Inl (DispatcherError [(Name ''a'', PyVal 1), (Name ''z'', PyVal 2), (Name ''b'', PyVal 1)])"
proof -
  let ?i = "[[(Name ''a'', PyVal 1)], [(Name ''z'', PyVal 2)]] :: (int, string) data_values list"
  let ?s = "[(Name ''a'', PyVal 1), (Name ''z'', PyVal 2), (Name ''b'', PyVal 1)] :: (int, string) data_values"
  have d: "dispatch0 (combine_dicts ?i) = Inr ?s" by code_simp
  note t = sub_dispatch_call_spec [of dispatch0 ?i ?s, OF d]
  from t [of "''list''" "Some [Name ''b'', Name ''a'']" "[Name ''b'', Name ''a'']"]
  have 1: "sub_dispatch_call dispatch0 (Some [Name ''b'', Name ''a'']) ''list'' ?i = Inr (AsList [PyVal 1, PyVal 1])"
    by simp
  from t [of "''values''" "Some [Name ''b'']" "[Name ''b'']"]
  have 2: "sub_dispatch_call dispatch0 (Some [Name ''b'']) ''values'' ?i = Inr (Single (PyVal 1))"
    by simp
  from t [of "''dict''" "Some [Name ''b'', Name ''c'']" "[Name ''b'', Name ''c'']"]
  have 3: "sub_dispatch_call dispatch0 (Some [Name ''b'', Name ''c'']) ''dict'' ?i = Inl (DispatcherError ?s)"
    by simp
  from d 1 2 3 show ?thesis by simp
qed

text \<open>
  C4 as stated fails: with the output type \<^verbatim>\<open>all\<close>, the default, the named output
  \<^verbatim>\<open>c\<close> is absent from the solution and the call returns the solution.
\<close>

theorem sub_dispatch_call_all_counterexample:
  "map_of [(Name ''a'', PyVal 1), (Name ''b'', PyVal 1)] (Name ''c'') = (None :: (int, string) pyobj option) \<and>
   sub_dispatch_call dispatch0 (Some [Name ''c'']) ''all'' [[(Name ''a'', PyVal 1)]]
     = Inr (Whole [(Name ''a'', PyVal 1), (Name ''b'', PyVal 1)])"
  by code_simp

text \<open>
  \<^verbatim>\<open>map_list(key_map, *inputs)\<close> on a key map of ids: the ids are paired with the arguments,
  as far as both go.
\<close>

definition map_list :: "node_id list \<Rightarrow> ('v, 'f) pyobj list \<Rightarrow> ('v, 'f) data_values" where
  "map_list key_map args = dict_update [] (zip key_map args)"

text \<open>
  The output type \<^verbatim>\<open>SubDispatchFunction.__init__\<close> sets: \<^verbatim>\<open>all\<close> without outputs,
  \<^verbatim>\<open>values\<close> for one output, \<^verbatim>\<open>list\<close> otherwise.
\<close>

definition function_output_type :: "node_id list option \<Rightarrow> string" where
  "function_output_type outs =
     (case outs of None \<Rightarrow> ''all'' | Some os \<Rightarrow> if length os = 1 then ''values'' else ''list'')"

text \<open>
  \<^verbatim>\<open>next((i for i in ks if p(i)), None)\<close> followed by \<^verbatim>\<open>if i:\<close>, which is false for
  \<^verbatim>\<open>None\<close> and for the empty string.
\<close>

definition first_true :: "(string \<Rightarrow> bool) \<Rightarrow> string list \<Rightarrow> string option" where
  "first_true p ks = (case find p ks of None \<Rightarrow> None | Some i \<Rightarrow> if i = [] then None else Some i)"

text \<open>
  \<^verbatim>\<open>SubDispatchFunction.__call__\<close>. The keywords are strings, in the order of the call. The
  solution skeleton holds \<^verbatim>\<open>None\<close> for each declared input
  (\<^verbatim>\<open>dict.fromkeys(inputs, None)\<close>); \<open>run\<close> is the run of the engine on the input values.
\<close>

definition sub_function_call ::
  "(('v, 'f) data_values \<Rightarrow> 'e + ('v, 'f) data_values) \<Rightarrow> ('v, 'f) dispatcher \<Rightarrow> node_id list
     \<Rightarrow> node_id list option \<Rightarrow> ('v, 'f) pyobj list \<Rightarrow> (string \<times> ('v, 'f) pyobj) list
     \<Rightarrow> ('v, 'f, 'e) call_exn + ('v, 'f) returned" where
  "sub_function_call run fdsp ins outs args kwargs =
     (let inps = map_list ins args in
      case first_true (\<lambda>i. map_of inps (Name i) \<noteq> None) (map fst kwargs) of
        Some i \<Rightarrow> Inl (CallTypeError ''got multiple values for argument'' i)
      | None \<Rightarrow>
          (case first_true (\<lambda>i. \<not> has_node (dmap fdsp) (Name i)) (sort (map fst kwargs)) of
             Some i \<Rightarrow> Inl (CallTypeError ''got an unexpected keyword argument'' i)
           | None \<Rightarrow>
               (case run (combine_dicts [map (\<lambda>k. (k, PyNone)) ins, inps,
                                         map (\<lambda>p. (Name (fst p), snd p)) kwargs]) of
                  Inl e \<Rightarrow> Inl (Raised e)
                | Inr solution \<Rightarrow> sub_return outs (function_output_type outs) solution)))"

lemma find_SomeD: "find P xs = Some x \<Longrightarrow> x \<in> set xs \<and> P x"
  by (induction xs) (auto split: if_splits)

lemma first_true_Some:
  "first_true p ks = Some i \<Longrightarrow> i \<in> set ks \<and> p i \<and> i \<noteq> []"
  by (auto simp: first_true_def find_Some_iff split: option.splits if_splits)

text \<open>
  What the two checks do: with no empty keyword in the call, a keyword that names an input
  bound by a positional argument gives the first \<^verbatim>\<open>TypeError\<close>, and otherwise a keyword that
  is no node of the dispatcher gives the second.
\<close>

lemma sub_function_call_checks:
  assumes "[] \<notin> fst ` set kwargs"
  shows "((\<exists>k\<in>fst ` set kwargs. map_of (map_list ins args) (Name k) \<noteq> None) \<longrightarrow>
           (\<exists>i. sub_function_call run fdsp ins outs args kwargs
                  = Inl (CallTypeError ''got multiple values for argument'' i) \<and>
                i \<in> fst ` set kwargs \<and> map_of (map_list ins args) (Name i) \<noteq> None)) \<and>
         ((\<forall>k\<in>fst ` set kwargs. map_of (map_list ins args) (Name k) = None) \<and>
          (\<exists>k\<in>fst ` set kwargs. \<not> has_node (dmap fdsp) (Name k)) \<longrightarrow>
           (\<exists>i. sub_function_call run fdsp ins outs args kwargs
                  = Inl (CallTypeError ''got an unexpected keyword argument'' i) \<and>
                i \<in> fst ` set kwargs \<and> \<not> has_node (dmap fdsp) (Name i)))"
proof (intro conjI impI)
  let ?p = "\<lambda>i. map_of (map_list ins args) (Name i) \<noteq> None"
  assume "\<exists>k\<in>fst ` set kwargs. ?p k"
  then obtain i where f: "find ?p (map fst kwargs) = Some i"
    by (cases "find ?p (map fst kwargs)") (auto simp: find_None_iff)
  from find_SomeD [OF f] have i: "i \<in> fst ` set kwargs" "?p i" by simp_all
  from i(1) assms have "i \<noteq> []" by blast
  with f have "first_true ?p (map fst kwargs) = Some i" by (simp add: first_true_def)
  with i show "\<exists>i. sub_function_call run fdsp ins outs args kwargs
                  = Inl (CallTypeError ''got multiple values for argument'' i) \<and>
                i \<in> fst ` set kwargs \<and> map_of (map_list ins args) (Name i) \<noteq> None"
    by (simp add: sub_function_call_def Let_def)
next
  let ?p = "\<lambda>i. map_of (map_list ins args) (Name i) \<noteq> None"
  let ?q = "\<lambda>i. \<not> has_node (dmap fdsp) (Name i)"
  assume h: "(\<forall>k\<in>fst ` set kwargs. map_of (map_list ins args) (Name k) = None) \<and>
          (\<exists>k\<in>fst ` set kwargs. \<not> has_node (dmap fdsp) (Name k))"
  then have "find ?p (map fst kwargs) = None" by (auto simp: find_None_iff)
  then have n: "first_true ?p (map fst kwargs) = None" by (simp add: first_true_def)
  from h obtain i where f: "find ?q (sort (map fst kwargs)) = Some i"
    by (cases "find ?q (sort (map fst kwargs))") (auto simp: find_None_iff)
  from find_SomeD [OF f] have i: "i \<in> fst ` set kwargs" "?q i" by simp_all
  from i(1) assms have "i \<noteq> []" by blast
  with f have "first_true ?q (sort (map fst kwargs)) = Some i" by (simp add: first_true_def)
  with n i show "\<exists>i. sub_function_call run fdsp ins outs args kwargs
                  = Inl (CallTypeError ''got an unexpected keyword argument'' i) \<and>
                i \<in> fst ` set kwargs \<and> \<not> has_node (dmap fdsp) (Name i)"
    by (simp add: sub_function_call_def Let_def)
qed

text \<open>
  C5: a keyword that is no node of the frozen dispatcher is to raise \<^verbatim>\<open>TypeError\<close>
  (unexpected keyword argument). The code misses the empty keyword: \<^verbatim>\<open>if i:\<close> takes the
  empty string for no keyword found. The function from \<^verbatim>\<open>a\<close> to \<^verbatim>\<open>b\<close>, called as
  \<^verbatim>\<open>f(1, **{'': 5})\<close>: the empty string is no node of the dispatcher, and the call returns
  the value of \<^verbatim>\<open>b\<close> instead of raising.
\<close>

theorem sub_function_call_empty_keyword:
  "\<not> has_node (dmap dsp_a_f) (Name '''') \<and>
   sub_function_call dispatch0 dsp_a_f [Name ''a''] (Some [Name ''b'']) [PyVal 1] [('''', PyVal 5)]
     = Inr (Single (PyVal 1))"
  by code_simp

lemma sub_function_call_named_keyword:
  "sub_function_call dispatch0 dsp_a_f [Name ''a''] (Some [Name ''b'']) [PyVal 1] [(''x'', PyVal 5)]
     = Inl (CallTypeError ''got an unexpected keyword argument'' ''x'') \<and>
   sub_function_call dispatch0 dsp_a_f [Name ''a''] (Some [Name ''b'']) [PyVal 1] [(''a'', PyVal 5)]
     = Inl (CallTypeError ''got multiple values for argument'' ''a'')"
  by code_simp

section \<open>Sub-dispatchers\<close>

text \<open>
  \<^verbatim>\<open>nodes[u].get('inputs', None)\<close> read as a collection of ids: the list of a function node,
  the keys of the map of a sub-dispatcher node.
\<close>

definition attr_inputs :: "('v, 'f) attrs \<Rightarrow> node_id list option" where
  "attr_inputs at =
     (case map_of at ''inputs'' of
        Some (PyIds l) \<Rightarrow> Some l
      | Some (PyIOMap m) \<Rightarrow> Some (map fst m)
      | _ \<Rightarrow> None)"

text \<open>
  The first loop of \<^verbatim>\<open>get_sub_dsp\<close>: a node with inputs outside the bunch is removed;
  \<^verbatim>\<open>nodes[u]\<close> raises \<^verbatim>\<open>KeyError\<close> on a node that is not, or no more, in the sub-graph.
\<close>

fun remove_lacking ::
  "('v, 'f) digraph \<Rightarrow> node_id list \<Rightarrow> node_id list \<Rightarrow> exn + ('v, 'f) digraph" where
  "remove_lacking g nodes_bunch [] = Inr g"
| "remove_lacking g nodes_bunch (u # us) =
     (case map_of (node g) u of
        None \<Rightarrow> Inl KeyError
      | Some at \<Rightarrow>
          (case attr_inputs at of
             None \<Rightarrow> remove_lacking g nodes_bunch us
           | Some n \<Rightarrow>
               if \<not> set n \<subseteq> set nodes_bunch then
                 (case remove_node g u of
                    Inl e \<Rightarrow> Inl e
                  | Inr g' \<Rightarrow> remove_lacking g' nodes_bunch us)
               else remove_lacking g nodes_bunch us))"

text \<open>The second loop: \<^verbatim>\<open>for e in edges_bunch: dmap_rm_edge(*e)\<close>.\<close>

fun remove_edges :: "('v, 'f) digraph \<Rightarrow> (node_id \<times> node_id) list \<Rightarrow> exn + ('v, 'f) digraph" where
  "remove_edges g [] = Inr g"
| "remove_edges g (e # es) =
     (case remove_edge g (fst e) (snd e) of
        Inl x \<Rightarrow> Inl x
      | Inr g' \<Rightarrow> remove_edges g' es)"

text \<open>
  \<^verbatim>\<open>[u for u, n in sub_dsp.dmap.nodes_iter(True) if n['type'] == 'function']\<close>: a node
  without a type raises \<^verbatim>\<open>KeyError\<close>.
\<close>

definition function_nodes_of :: "('v, 'f) digraph \<Rightarrow> exn + node_id list" where
  "function_nodes_of g =
     (if \<exists>p\<in>set (node g). map_of (snd p) ''type'' = None then Inl KeyError
      else Inr (map fst (filter (\<lambda>p. map_of (snd p) ''type'' = Some (PyStr ''function'')) (node g))))"

text \<open>The third loop: a function node without outgoing edge is removed.\<close>

fun remove_no_outputs :: "('v, 'f) digraph \<Rightarrow> node_id list \<Rightarrow> exn + ('v, 'f) digraph" where
  "remove_no_outputs g [] = Inr g"
| "remove_no_outputs g (u # us) =
     (if out_degree g u = 0 then
        (case remove_node g u of
           Inl e \<Rightarrow> Inl e
         | Inr g' \<Rightarrow> remove_no_outputs g' us)
      else remove_no_outputs g us)"

text \<open>\<^verbatim>\<open>[self.get_node(u)[1][0] for u in nodes_bunch]\<close>.\<close>

fun real_paths :: "(node_id \<Rightarrow> exn + node_id) \<Rightarrow> node_id list \<Rightarrow> exn + node_id list" where
  "real_paths get [] = Inr []"
| "real_paths get (u # us) =
     (case get u of
        Inl e \<Rightarrow> Inl e
      | Inr v \<Rightarrow> (case real_paths get us of Inl e \<Rightarrow> Inl e | Inr vs \<Rightarrow> Inr (v # vs)))"

text \<open>The keyword arguments of the call \<^verbatim>\<open>copy_structure(dmap=g)\<close>.\<close>

definition dmap_kwargs :: "('v, 'f) digraph \<Rightarrow> ('v, 'f) copy_kwargs" where
  "dmap_kwargs g = \<lparr>kw_dmap = Some (Some g), kw_name = None, kw_default_values = None,
                    kw_raises = None, kw_description = None, kw_stopper = None\<rparr>"

text \<open>
  \<^verbatim>\<open>Dispatcher.get_sub_dsp\<close>. The method \<^verbatim>\<open>get_node\<close> is inherited from \<^verbatim>\<open>Base\<close>
  (\<^verbatim>\<open>utils/base.py\<close>) and is a parameter here: \<open>get_node self u\<close> is the id
  \<^verbatim>\<open>self.get_node(u)[1][0]\<close>, or the exception of the call.
\<close>

definition get_sub_dsp ::
  "(('v, 'f) dispatcher \<Rightarrow> node_id \<Rightarrow> exn + node_id) \<Rightarrow> ('v, 'f) dispatcher \<Rightarrow> node_id list
     \<Rightarrow> (node_id \<times> node_id) list option \<Rightarrow> exn + ('v, 'f) dispatcher" where
  "get_sub_dsp get_node self nodes_bunch edges_bunch =
     (case real_paths (get_node self) nodes_bunch of
        Inl e \<Rightarrow> Inl e
      | Inr nb \<Rightarrow>
          let sub_dsp = copy_structure self (dmap_kwargs (subgraph (dmap self) nb))
          in (case remove_lacking (dmap sub_dsp) nb nb of
                Inl e \<Rightarrow> Inl e
              | Inr g1 \<Rightarrow>
                  (case (case edges_bunch of None \<Rightarrow> Inr g1 | Some es \<Rightarrow> remove_edges g1 es) of
                     Inl e \<Rightarrow> Inl e
                   | Inr g2 \<Rightarrow>
                       (case function_nodes_of g2 of
                          Inl e \<Rightarrow> Inl e
                        | Inr fs \<Rightarrow>
                            (case remove_no_outputs g2 fs of
                               Inl e \<Rightarrow> Inl e
                             | Inr g3 \<Rightarrow>
                                 let g4 = remove_nodes_from g3 (isolates g3)
                                 in Inr (sub_dsp\<lparr>dmap := g4,
                                           default_values := filter (\<lambda>p. has_node g4 (fst p))
                                                               (default_values self)\<rparr>))))))"

text \<open>The dispatcher of the docstring of \<^verbatim>\<open>get_sub_dsp\<close>: \<^verbatim>\<open>fun1\<close> and \<^verbatim>\<open>fun2\<close>.\<close>

definition dsp_two :: "(int, string) dispatcher" where
  "dsp_two =
     snd (add_function env0
       (snd (add_function env0 (snd (set_default_value
               (snd (add_data env0 dsp_new (data_defaults (Some (Name ''a''))))) (Name ''a'') (PyVal 1) 0))
          (fun_defaults (Some ''fun1'') (Some [Name ''a'', Name ''b'']) (Some [Name ''c'', Name ''d'']))))
       (fun_defaults (Some ''fun2'') (Some [Name ''a'', Name ''d'']) (Some [Name ''c'', Name ''e''])))"

text \<open>
  A \<open>get_node\<close> for the evaluations below: the id of a node of the dispatcher is returned
  as it is, another id is not found.
\<close>

definition self_node :: "('v, 'f) dispatcher \<Rightarrow> node_id \<Rightarrow> exn + node_id" where
  "self_node self u = (if has_node (dmap self) u then Inr u else Inl (ValueError ''Node not found''))"


section \<open>The sub-dispatcher as a restriction\<close>

lemma node_subgraph:
  "map_of (node (subgraph g nb)) u = (if u \<in> set nb then map_of (node g) u else None)"
  by (simp add: subgraph_def Let_def map_of_filter_key [where P = "\<lambda>k. k \<in> set nb"])

lemma keys_filter:
  "k \<in> fst ` set (filter (\<lambda>p. fst p \<in> S) al) \<longleftrightarrow> k \<in> S \<and> map_of al k \<noteq> None"
  by (force simp: map_of_eq_None_iff image_iff)

lemma adj_subgraph:
  "map_of (adj (subgraph g nb)) e =
     (if fst e \<in> set nb \<and> has_node g (fst e) \<and> snd e \<in> set nb \<and> has_node g (snd e)
      then map_of (adj g) e else None)"
proof -
  define K where "K = fst ` set (filter (\<lambda>p. fst p \<in> set nb) (node g))"
  have k: "k \<in> K \<longleftrightarrow> k \<in> set nb \<and> has_node g k" for k
    unfolding K_def by (simp only: keys_filter has_node_def)
  have "adj (subgraph g nb) = filter (\<lambda>e. fst (fst e) \<in> K \<and> snd (fst e) \<in> K) (adj g)"
    by (simp add: subgraph_def Let_def K_def)
  then have "map_of (adj (subgraph g nb)) e =
      (if fst e \<in> K \<and> snd e \<in> K then map_of (adj g) e else None)"
    by (simp only: map_of_filter_key [where P = "\<lambda>e. fst e \<in> K \<and> snd e \<in> K"])
  then show ?thesis by (simp add: k)
qed

lemma distinct_subgraph:
  "distinct (map fst (node g)) \<Longrightarrow> distinct (map fst (node (subgraph g nb)))"
  by (simp add: subgraph_def Let_def distinct_map_filter)

lemma distinct_drop_node:
  "distinct (map fst (node g)) \<Longrightarrow> distinct (map fst (node (drop_node g n)))"
  by (simp add: drop_node_def distinct_delete)

lemma dmap_copy_subgraph: "dmap (copy_structure self (dmap_kwargs (subgraph g nb))) = subgraph g nb"
proof (cases "filter (\<lambda>p. fst p \<in> set nb) (node g) = []")
  case True
  then have "subgraph g nb = \<lparr>node = [], adj = []\<rparr>"
    by (simp add: subgraph_def Let_def)
  then show ?thesis
    by (simp add: copy_structure_def dmap_kwargs_def Dispatcher_init_def)
next
  case False
  then have "node (subgraph g nb) \<noteq> []" by (simp add: subgraph_def Let_def)
  then show ?thesis
    by (simp add: copy_structure_def dmap_kwargs_def Dispatcher_init_def)
qed

definition lacks_input :: "('v, 'f) digraph \<Rightarrow> node_id list \<Rightarrow> node_id \<Rightarrow> bool" where
  "lacks_input g nb u =
     (case map_of (node g) u of
        None \<Rightarrow> False
      | Some at \<Rightarrow> (case attr_inputs at of None \<Rightarrow> False | Some n \<Rightarrow> \<not> set n \<subseteq> set nb))"

lemma lacks_input_drop_node:
  "lacks_input (drop_node g u) nb m \<longleftrightarrow> m \<noteq> u \<and> lacks_input g nb m"
  by (simp add: lacks_input_def node_drop_node)

lemma remove_lacking_result:
  assumes "distinct us" and "\<forall>u\<in>set us. has_node g u"
  shows "\<exists>g'. remove_lacking g nb us = Inr g' \<and>
     (\<forall>m. map_of (node g') m =
        (if m \<in> set us \<and> lacks_input g nb m then None else map_of (node g) m)) \<and>
     (\<forall>e. map_of (adj g') e =
        (if (fst e \<in> set us \<and> lacks_input g nb (fst e)) \<or> (snd e \<in> set us \<and> lacks_input g nb (snd e))
         then None else map_of (adj g) e)) \<and>
     (distinct (map fst (node g)) \<longrightarrow> distinct (map fst (node g')))"
  using assms
proof (induction us arbitrary: g)
  case Nil
  then show ?case by simp
next
  case (Cons u us)
  from Cons.prems obtain at where at: "map_of (node g) u = Some at"
    by (auto simp: has_node_def)
  have d: "distinct us" and nu: "u \<notin> set us" using Cons.prems(1) by simp_all
  show ?case
  proof (cases "lacks_input g nb u")
    case False
    then have r: "remove_lacking g nb (u # us) = remove_lacking g nb us"
      using at by (simp add: lacks_input_def split: option.splits)
    from Cons.IH [OF d, of g] Cons.prems(2) obtain g' where
      g': "remove_lacking g nb us = Inr g'"
        "\<forall>m. map_of (node g') m =
           (if m \<in> set us \<and> lacks_input g nb m then None else map_of (node g) m)"
        "\<forall>e. map_of (adj g') e =
           (if (fst e \<in> set us \<and> lacks_input g nb (fst e)) \<or> (snd e \<in> set us \<and> lacks_input g nb (snd e))
            then None else map_of (adj g) e)"
        "distinct (map fst (node g)) \<longrightarrow> distinct (map fst (node g'))"
      by auto
    show ?thesis
      apply (rule exI [of _ g'])
      using g' False r by auto
  next
    case True
    have hn: "has_node g u" using at by (simp add: has_node_def)
    let ?g1 = "drop_node g u"
    from True have r: "remove_lacking g nb (u # us) = remove_lacking ?g1 nb us"
      using at hn by (simp add: lacks_input_def remove_node_def split: option.splits)
    have h1: "\<forall>x\<in>set us. has_node ?g1 x"
      using Cons.prems(2) nu by (auto simp: has_node_def node_drop_node)
    from Cons.IH [OF d h1] obtain g' where
      g': "remove_lacking ?g1 nb us = Inr g'"
        "\<forall>m. map_of (node g') m =
           (if m \<in> set us \<and> lacks_input ?g1 nb m then None else map_of (node ?g1) m)"
        "\<forall>e. map_of (adj g') e =
           (if (fst e \<in> set us \<and> lacks_input ?g1 nb (fst e)) \<or> (snd e \<in> set us \<and> lacks_input ?g1 nb (snd e))
            then None else map_of (adj ?g1) e)"
        "distinct (map fst (node ?g1)) \<longrightarrow> distinct (map fst (node g'))"
      by auto
    show ?thesis
      apply (rule exI [of _ g'])
      using g' True r nu
      by (auto simp: lacks_input_drop_node node_drop_node adj_drop_node distinct_drop_node)
  qed
qed

lemma remove_edges_result:
  assumes "distinct es" and "\<forall>e\<in>set es. has_edge g (fst e) (snd e)"
  shows "\<exists>g'. remove_edges g es = Inr g' \<and> node g' = node g \<and>
     (\<forall>e. map_of (adj g') e = (if e \<in> set es then None else map_of (adj g) e))"
  using assms
proof (induction es arbitrary: g)
  case Nil
  then show ?case by simp
next
  case (Cons e es)
  let ?g1 = "g\<lparr>adj := AList.delete e (adj g)\<rparr>"
  have r: "remove_edges g (e # es) = remove_edges ?g1 es"
    using Cons.prems(2) by (simp add: remove_edge_def)
  have d: "distinct es" and ne: "e \<notin> set es" using Cons.prems(1) by simp_all
  have h: "\<forall>x\<in>set es. has_edge ?g1 (fst x) (snd x)"
    using Cons.prems(2) ne by (auto simp: has_edge_def delete_conv')
  from Cons.IH [OF d h] obtain g' where
    g': "remove_edges ?g1 es = Inr g'" "node g' = node ?g1"
      "\<forall>x. map_of (adj g') x = (if x \<in> set es then None else map_of (adj ?g1) x)"
    by auto
  show ?case
    apply (rule exI [of _ g'])
    using g' r by (auto simp: delete_conv')
qed

definition is_function_node :: "('v, 'f) digraph \<Rightarrow> node_id \<Rightarrow> bool" where
  "is_function_node g u = (node_attr g u ''type'' = Some (PyStr ''function''))"

lemma function_nodes_of_result:
  assumes "distinct (map fst (node g))" and "\<forall>u. has_node g u \<longrightarrow> node_attr g u ''type'' \<noteq> None"
  shows "\<exists>fs. function_nodes_of g = Inr fs \<and> distinct fs \<and>
           (\<forall>u. u \<in> set fs \<longleftrightarrow> is_function_node g u)"
proof -
  have m: "\<And>u at. (u, at) \<in> set (node g) \<longleftrightarrow> map_of (node g) u = Some at"
    using assms(1) by simp
  have t: "\<not> (\<exists>p\<in>set (node g). map_of (snd p) ''type'' = None)"
  proof
    assume "\<exists>p\<in>set (node g). map_of (snd p) ''type'' = None"
    then obtain u at where p: "(u, at) \<in> set (node g)" "map_of at ''type'' = None" by auto
    then have "map_of (node g) u = Some at" using m by simp
    then have "has_node g u" "node_attr g u ''type'' = None"
      using p(2) by (simp_all add: has_node_def node_attr_def)
    with assms(2) show False by blast
  qed
  let ?fs = "map fst (filter (\<lambda>p. map_of (snd p) ''type'' = Some (PyStr ''function'')) (node g))"
  have r: "function_nodes_of g = Inr ?fs" using t by (simp add: function_nodes_of_def)
  have d: "distinct ?fs" using assms(1) by (rule distinct_map_filter)
  have i: "u \<in> set ?fs \<longleftrightarrow> is_function_node g u" for u
  proof
    assume "u \<in> set ?fs"
    then obtain at where "(u, at) \<in> set (node g)" "map_of at ''type'' = Some (PyStr ''function'')"
      by auto
    then show "is_function_node g u" using m by (simp add: is_function_node_def node_attr_def)
  next
    assume "is_function_node g u"
    then obtain at where "map_of (node g) u = Some at" "map_of at ''type'' = Some (PyStr ''function'')"
      by (auto simp: is_function_node_def node_attr_def split: option.splits)
    then have "(u, at) \<in> set (node g)" using m by simp
    then show "u \<in> set ?fs"
      using \<open>map_of at ''type'' = Some (PyStr ''function'')\<close> by force
  qed
  from r d i show ?thesis by blast
qed

lemma out_degree_0_iff: "out_degree g n = 0 \<longleftrightarrow> (\<forall>v. \<not> has_edge g n v)"
proof -
  have "out_degree g n = 0 \<longleftrightarrow> (\<forall>e\<in>set (adj g). fst (fst e) \<noteq> n)"
    by (simp add: out_degree_def filter_empty_conv)
  also have "\<dots> \<longleftrightarrow> (\<forall>v. (n, v) \<notin> fst ` set (adj g))" by force
  also have "\<dots> \<longleftrightarrow> (\<forall>v. \<not> has_edge g n v)" by (simp add: has_edge_def map_of_eq_None_iff)
  finally show ?thesis .
qed

lemma in_degree_0_iff: "in_degree g n = 0 \<longleftrightarrow> (\<forall>v. \<not> has_edge g v n)"
proof -
  have "in_degree g n = 0 \<longleftrightarrow> (\<forall>e\<in>set (adj g). snd (fst e) \<noteq> n)"
    by (simp add: in_degree_def filter_empty_conv)
  also have "\<dots> \<longleftrightarrow> (\<forall>v. (v, n) \<notin> fst ` set (adj g))" by force
  also have "\<dots> \<longleftrightarrow> (\<forall>v. \<not> has_edge g v n)" by (simp add: has_edge_def map_of_eq_None_iff)
  finally show ?thesis .
qed

lemma has_edge_drop_node:
  "has_edge (drop_node g n) u v \<longleftrightarrow> u \<noteq> n \<and> v \<noteq> n \<and> has_edge g u v"
  by (simp add: has_edge_def adj_drop_node)

lemma remove_no_outputs_result:
  assumes "distinct fs" and "\<forall>u\<in>set fs. has_node g u"
    and "\<forall>u\<in>set fs. \<forall>v\<in>set fs. \<not> has_edge g u v"
  shows "\<exists>g'. remove_no_outputs g fs = Inr g' \<and>
     (\<forall>m. map_of (node g') m =
        (if m \<in> set fs \<and> out_degree g m = 0 then None else map_of (node g) m)) \<and>
     (\<forall>e. map_of (adj g') e =
        (if (fst e \<in> set fs \<and> out_degree g (fst e) = 0) \<or> (snd e \<in> set fs \<and> out_degree g (snd e) = 0)
         then None else map_of (adj g) e))"
  using assms
proof (induction fs arbitrary: g)
  case Nil
  then show ?case by simp
next
  case (Cons u us)
  have d: "distinct us" and nu: "u \<notin> set us" using Cons.prems(1) by simp_all
  show ?case
  proof (cases "out_degree g u = 0")
    case False
    then have r: "remove_no_outputs g (u # us) = remove_no_outputs g us" by simp
    from Cons.IH [OF d, of g] Cons.prems(2,3) obtain g' where
      g': "remove_no_outputs g us = Inr g'"
        "\<forall>m. map_of (node g') m =
           (if m \<in> set us \<and> out_degree g m = 0 then None else map_of (node g) m)"
        "\<forall>e. map_of (adj g') e =
           (if (fst e \<in> set us \<and> out_degree g (fst e) = 0) \<or> (snd e \<in> set us \<and> out_degree g (snd e) = 0)
            then None else map_of (adj g) e)"
      by auto
    show ?thesis
      apply (rule exI [of _ g'])
      using g' False r by auto
  next
    case True
    have hn: "has_node g u" using Cons.prems(2) by simp
    let ?g1 = "drop_node g u"
    from True hn have r: "remove_no_outputs g (u # us) = remove_no_outputs ?g1 us"
      by (simp add: remove_node_def)
    have h1: "\<forall>x\<in>set us. has_node ?g1 x"
      using Cons.prems(2) nu by (auto simp: has_node_def node_drop_node)
    have h2: "\<forall>x\<in>set us. \<forall>v\<in>set us. \<not> has_edge ?g1 x v"
      using Cons.prems(3) by (simp add: has_edge_drop_node)
    have od: "out_degree ?g1 x = 0 \<longleftrightarrow> out_degree g x = 0" if "x \<in> set us" for x
    proof -
      have "x \<noteq> u" using that nu by blast
      moreover have "\<not> has_edge g x u" using Cons.prems(3) that by simp
      ultimately show ?thesis by (auto simp: out_degree_0_iff has_edge_drop_node)
    qed
    from Cons.IH [OF d h1 h2] obtain g' where
      g': "remove_no_outputs ?g1 us = Inr g'"
        "\<forall>m. map_of (node g') m =
           (if m \<in> set us \<and> out_degree ?g1 m = 0 then None else map_of (node ?g1) m)"
        "\<forall>e. map_of (adj g') e =
           (if (fst e \<in> set us \<and> out_degree ?g1 (fst e) = 0) \<or> (snd e \<in> set us \<and> out_degree ?g1 (snd e) = 0)
            then None else map_of (adj ?g1) e)"
      by auto
    have n': "\<forall>m. map_of (node g') m =
           (if m \<in> set us \<and> out_degree g m = 0 then None else map_of (node ?g1) m)"
      using g'(2) by (simp add: od cong: conj_cong)
    have a': "\<forall>e. map_of (adj g') e =
           (if (fst e \<in> set us \<and> out_degree g (fst e) = 0) \<or> (snd e \<in> set us \<and> out_degree g (snd e) = 0)
            then None else map_of (adj ?g1) e)"
      using g'(3) by (simp add: od cong: conj_cong)
    show ?thesis
      apply (rule exI [of _ g'])
      using g'(1) n' a' True r nu
      by (auto simp: node_drop_node adj_drop_node)
  qed
qed

lemma isolates_iff:
  "m \<in> set (isolates g) \<longleftrightarrow> has_node g m \<and> (\<forall>v. \<not> has_edge g m v \<and> \<not> has_edge g v m)"
  by (auto simp: isolates_def in_degree_0_iff out_degree_0_iff has_node_def map_of_eq_None_iff)

lemma node_remove_isolates:
  "map_of (node (remove_nodes_from g (isolates g))) m =
     (if \<forall>v. \<not> has_edge g m v \<and> \<not> has_edge g v m then None else map_of (node g) m)"
  by (auto simp: node_remove_nodes_from isolates_iff has_node_def)

lemma adj_remove_isolates:
  "map_of (adj (remove_nodes_from g (isolates g))) e = map_of (adj g) e"
proof (cases "map_of (adj g) e")
  case None
  then show ?thesis by (simp add: adj_remove_nodes_from)
next
  case (Some a)
  then have "has_edge g (fst e) (snd e)" by (simp add: has_edge_def)
  then have "fst e \<notin> set (isolates g)" "snd e \<notin> set (isolates g)"
    by (auto simp: isolates_iff)
  then show ?thesis by (simp add: adj_remove_nodes_from)
qed

text \<open>
  The sub-dispatcher in words. \<open>has_inputs\<close>: a node of the bunch, with every id of its
  \<^verbatim>\<open>inputs\<close> in the bunch. \<open>sub_edge\<close>: an edge between two such nodes that is not listed
  for removal. \<open>has_outputs\<close>: a node with its inputs that, when its type is
  \<^verbatim>\<open>function\<close>, starts a \<open>sub_edge\<close>. \<open>retained_edge\<close>: a \<open>sub_edge\<close> between two such
  nodes. \<open>retained_node\<close>: such a node at an end of a \<open>retained_edge\<close>.
\<close>

definition edge_list :: "(node_id \<times> node_id) list option \<Rightarrow> (node_id \<times> node_id) list" where
  "edge_list E = (case E of None \<Rightarrow> [] | Some es \<Rightarrow> es)"

definition has_inputs :: "('v, 'f) digraph \<Rightarrow> node_id list \<Rightarrow> node_id \<Rightarrow> bool" where
  "has_inputs g nb u \<longleftrightarrow> u \<in> set nb \<and> has_node g u \<and> \<not> lacks_input g nb u"

definition sub_edge ::
  "('v, 'f) digraph \<Rightarrow> node_id list \<Rightarrow> (node_id \<times> node_id) list \<Rightarrow> node_id \<Rightarrow> node_id \<Rightarrow> bool" where
  "sub_edge g nb es u v \<longleftrightarrow>
     has_edge g u v \<and> has_inputs g nb u \<and> has_inputs g nb v \<and> (u, v) \<notin> set es"

definition has_outputs ::
  "('v, 'f) digraph \<Rightarrow> node_id list \<Rightarrow> (node_id \<times> node_id) list \<Rightarrow> node_id \<Rightarrow> bool" where
  "has_outputs g nb es u \<longleftrightarrow>
     has_inputs g nb u \<and>
     (is_function_node g u \<longrightarrow>
        (\<exists>e\<in>set (adj g). fst (fst e) = u \<and> sub_edge g nb es u (snd (fst e))))"

definition retained_edge ::
  "('v, 'f) digraph \<Rightarrow> node_id list \<Rightarrow> (node_id \<times> node_id) list \<Rightarrow> node_id \<Rightarrow> node_id \<Rightarrow> bool" where
  "retained_edge g nb es u v \<longleftrightarrow>
     sub_edge g nb es u v \<and> has_outputs g nb es u \<and> has_outputs g nb es v"

definition retained_node ::
  "('v, 'f) digraph \<Rightarrow> node_id list \<Rightarrow> (node_id \<times> node_id) list \<Rightarrow> node_id \<Rightarrow> bool" where
  "retained_node g nb es u \<longleftrightarrow>
     has_outputs g nb es u \<and>
     (\<exists>e\<in>set (adj g). (fst (fst e) = u \<or> snd (fst e) = u) \<and>
                       retained_edge g nb es (fst (fst e)) (snd (fst e)))"

lemma has_edge_in_adj: "has_edge g u v \<longleftrightarrow> (\<exists>e\<in>set (adj g). fst e = (u, v))"
  by (force simp: has_edge_def map_of_eq_None_iff image_iff)

lemma has_outputs_iff:
  "has_outputs g nb es u \<longleftrightarrow>
     has_inputs g nb u \<and> (is_function_node g u \<longrightarrow> (\<exists>v. sub_edge g nb es u v))"
proof -
  have "(\<exists>e\<in>set (adj g). fst (fst e) = u \<and> sub_edge g nb es u (snd (fst e)))
          \<longleftrightarrow> (\<exists>v. sub_edge g nb es u v)"
  proof
    assume "\<exists>v. sub_edge g nb es u v"
    then obtain v where v: "sub_edge g nb es u v" by blast
    then have "has_edge g u v" by (simp add: sub_edge_def)
    then obtain e where "e \<in> set (adj g)" "fst e = (u, v)" by (auto simp: has_edge_in_adj)
    with v show "\<exists>e\<in>set (adj g). fst (fst e) = u \<and> sub_edge g nb es u (snd (fst e))"
      by (intro bexI [of _ e]) simp_all
  qed blast
  then show ?thesis by (simp add: has_outputs_def)
qed

lemma retained_node_iff:
  "retained_node g nb es u \<longleftrightarrow>
     has_outputs g nb es u \<and> (\<exists>v. retained_edge g nb es u v \<or> retained_edge g nb es v u)"
proof -
  have "(\<exists>e\<in>set (adj g). (fst (fst e) = u \<or> snd (fst e) = u) \<and>
                       retained_edge g nb es (fst (fst e)) (snd (fst e)))
          \<longleftrightarrow> (\<exists>v. retained_edge g nb es u v \<or> retained_edge g nb es v u)"
  proof
    assume "\<exists>v. retained_edge g nb es u v \<or> retained_edge g nb es v u"
    then obtain v where v: "retained_edge g nb es u v \<or> retained_edge g nb es v u" by blast
    then show "\<exists>e\<in>set (adj g). (fst (fst e) = u \<or> snd (fst e) = u) \<and>
                       retained_edge g nb es (fst (fst e)) (snd (fst e))"
    proof
      assume r: "retained_edge g nb es u v"
      then have "has_edge g u v" by (simp add: retained_edge_def sub_edge_def)
      then obtain e where "e \<in> set (adj g)" "fst e = (u, v)" by (auto simp: has_edge_in_adj)
      with r show ?thesis by (intro bexI [of _ e]) simp_all
    next
      assume r: "retained_edge g nb es v u"
      then have "has_edge g v u" by (simp add: retained_edge_def sub_edge_def)
      then obtain e where "e \<in> set (adj g)" "fst e = (v, u)" by (auto simp: has_edge_in_adj)
      with r show ?thesis by (intro bexI [of _ e]) simp_all
    qed
  next
    assume "\<exists>e\<in>set (adj g). (fst (fst e) = u \<or> snd (fst e) = u) \<and>
                       retained_edge g nb es (fst (fst e)) (snd (fst e))"
    then show "\<exists>v. retained_edge g nb es u v \<or> retained_edge g nb es v u" by auto
  qed
  then show ?thesis by (simp add: retained_node_def)
qed

lemma lacks_input_subgraph:
  "lacks_input (subgraph g nb) nb m \<longleftrightarrow> m \<in> set nb \<and> lacks_input g nb m"
  by (simp add: lacks_input_def node_subgraph)

lemma node_attr_has_node: "node_attr g u k \<noteq> None \<Longrightarrow> has_node g u"
  by (auto simp: node_attr_def has_node_def split: option.splits)

text \<open>
  C6 (as amended): \<^verbatim>\<open>get_sub_dsp(N, E)\<close>. Let the ids of \<open>N\<close> resolve to the ids \<open>nb\<close>, none
  listed twice, each a node of the dispatcher with a type; let the node dictionary hold one
  entry per id and no edge of the dispatcher join two nodes of type \<^verbatim>\<open>function\<close>; let \<open>E\<close>,
  when given, list without repetition edges of the dispatcher whose two end points are in
  \<open>nb\<close> and have every id of their \<^verbatim>\<open>inputs\<close> in \<open>nb\<close>. Then the call returns a dispatcher.
  Its nodes are the nodes of \<open>nb\<close> that have every id of their \<^verbatim>\<open>inputs\<close> in \<open>nb\<close>, that
  keep an outgoing edge when their type is \<^verbatim>\<open>function\<close>, and that are not isolated; its
  edges are the edges of the dispatcher, not listed in \<open>E\<close>, between nodes that pass the first
  two tests; nodes and edges have the attributes they have in the dispatcher; its default
  values are those of the dispatcher for the retained nodes, and no others.
\<close>

theorem get_sub_dsp_restriction:
  assumes rp: "real_paths (get_node self) N = Inr nb"
    and dn: "distinct nb"
    and dg: "distinct (map fst (node (dmap self)))"
    and ty: "\<forall>u\<in>set nb. node_attr (dmap self) u ''type'' \<noteq> None"
    and ff: "\<forall>e\<in>set (adj (dmap self)).
               \<not> (is_function_node (dmap self) (fst (fst e)) \<and> is_function_node (dmap self) (snd (fst e)))"
    and de: "distinct (edge_list E)"
    and ee: "\<forall>e\<in>set (edge_list E). has_edge (dmap self) (fst e) (snd e) \<and>
               has_inputs (dmap self) nb (fst e) \<and> has_inputs (dmap self) nb (snd e)"
  shows "\<exists>sub. get_sub_dsp get_node self N E = Inr sub \<and>
     (\<forall>u. map_of (node (dmap sub)) u =
        (if retained_node (dmap self) nb (edge_list E) u then map_of (node (dmap self)) u else None)) \<and>
     (\<forall>u v. map_of (adj (dmap sub)) (u, v) =
        (if retained_edge (dmap self) nb (edge_list E) u v then map_of (adj (dmap self)) (u, v) else None)) \<and>
     (\<forall>u. map_of (default_values sub) u =
        (if retained_node (dmap self) nb (edge_list E) u then map_of (default_values self) u else None))"
proof -
  define g where "g = dmap self"
  define es where "es = edge_list E"
  define g0 where "g0 = subgraph g nb"
  define sub_dsp where "sub_dsp = copy_structure self (dmap_kwargs g0)"
  have sd: "dmap sub_dsp = g0" by (simp add: sub_dsp_def g0_def dmap_copy_subgraph)
  have hn: "\<forall>u\<in>set nb. has_node g u" using ty node_attr_has_node unfolding g_def by blast
  have hn0: "\<forall>u\<in>set nb. has_node g0 u"
    using hn by (simp add: g0_def has_node_def node_subgraph)
  from remove_lacking_result [OF dn hn0, of nb] obtain g1 where
    r1: "remove_lacking g0 nb nb = Inr g1"
    and n1': "\<forall>m. map_of (node g1) m =
               (if m \<in> set nb \<and> lacks_input g0 nb m then None else map_of (node g0) m)"
    and a1': "\<forall>e. map_of (adj g1) e =
               (if (fst e \<in> set nb \<and> lacks_input g0 nb (fst e)) \<or> (snd e \<in> set nb \<and> lacks_input g0 nb (snd e))
                then None else map_of (adj g0) e)"
    and d1': "distinct (map fst (node g0)) \<longrightarrow> distinct (map fst (node g1))"
    by blast
  have d1: "distinct (map fst (node g1))"
    using d1' dg by (simp add: g0_def g_def distinct_subgraph)
  have n0: "map_of (node g0) m = (if m \<in> set nb then map_of (node g) m else None)" for m
    by (simp add: g0_def node_subgraph)
  have a0: "map_of (adj g0) e =
      (if fst e \<in> set nb \<and> has_node g (fst e) \<and> snd e \<in> set nb \<and> has_node g (snd e)
       then map_of (adj g) e else None)" for e
    unfolding g0_def by (rule adj_subgraph)
  have l0: "lacks_input g0 nb m \<longleftrightarrow> m \<in> set nb \<and> lacks_input g nb m" for m
    by (simp add: g0_def lacks_input_subgraph)
  have n1: "map_of (node g1) m = (if has_inputs g nb m then map_of (node g) m else None)" for m
    using n1' [rule_format, of m] by (auto simp: n0 l0 has_inputs_def has_node_def)
  have a1: "map_of (adj g1) e =
      (if has_inputs g nb (fst e) \<and> has_inputs g nb (snd e) then map_of (adj g) e else None)" for e
    using a1' [rule_format, of e] by (auto simp: a0 l0 has_inputs_def)
  have he1: "\<forall>e\<in>set es. has_edge g1 (fst e) (snd e)"
    using ee by (simp add: has_edge_def a1 es_def g_def)
  from remove_edges_result [OF de [folded es_def] he1] obtain g2 where
    r2': "remove_edges g1 es = Inr g2"
    and n2': "node g2 = node g1"
    and a2': "\<forall>e. map_of (adj g2) e = (if e \<in> set es then None else map_of (adj g1) e)"
    by blast
  have r2: "(case E of None \<Rightarrow> Inr g1 | Some es \<Rightarrow> remove_edges g1 es) = Inr g2"
  proof (cases E)
    case None
    then have "es = []" by (simp add: es_def edge_list_def)
    with r2' have "g2 = g1" by simp
    with None show ?thesis by simp
  next
    case (Some x)
    then have "es = x" by (simp add: es_def edge_list_def)
    with r2' Some show ?thesis by simp
  qed
  have n2: "map_of (node g2) m = (if has_inputs g nb m then map_of (node g) m else None)" for m
    using n1 n2' by simp
  have d2: "distinct (map fst (node g2))" using d1 n2' by simp
  have a2: "map_of (adj g2) (u, v) = (if sub_edge g nb es u v then map_of (adj g) (u, v) else None)" for u v
    using a2' by (auto simp: a1 sub_edge_def has_edge_def)
  have e2: "has_edge g2 u v \<longleftrightarrow> sub_edge g nb es u v" for u v
    by (simp add: has_edge_def a2) (simp add: sub_edge_def has_edge_def)
  have h2: "has_node g2 m \<longleftrightarrow> has_inputs g nb m" for m
    by (simp add: has_node_def n2) (simp add: has_inputs_def has_node_def)
  have at2: "node_attr g2 m k = (if has_inputs g nb m then node_attr g m k else None)" for m k
    by (simp add: node_attr_def n2)
  have ty2: "\<forall>u. has_node g2 u \<longrightarrow> node_attr g2 u ''type'' \<noteq> None"
    using ty by (auto simp: h2 at2 has_inputs_def g_def)
  from function_nodes_of_result [OF d2 ty2] obtain fs where
    r3: "function_nodes_of g2 = Inr fs"
    and dfs: "distinct fs"
    and fs': "\<forall>u. u \<in> set fs \<longleftrightarrow> is_function_node g2 u"
    by blast
  have fs: "u \<in> set fs \<longleftrightarrow> has_inputs g nb u \<and> is_function_node g u" for u
    using fs' by (simp add: is_function_node_def at2)
  have hfs: "\<forall>u\<in>set fs. has_node g2 u" by (simp add: fs h2)
  have nfs: "\<forall>u\<in>set fs. \<forall>v\<in>set fs. \<not> has_edge g2 u v"
  proof (intro ballI notI)
    fix u v
    assume u: "u \<in> set fs" and v: "v \<in> set fs" and e: "has_edge g2 u v"
    from e have "has_edge g u v" by (simp add: e2 sub_edge_def)
    then obtain x where x: "x \<in> set (adj g)" "fst x = (u, v)" by (auto simp: has_edge_in_adj)
    with ff have "\<not> (is_function_node g u \<and> is_function_node g v)" by (auto simp: g_def)
    with u v show False by (simp add: fs)
  qed
  from remove_no_outputs_result [OF dfs hfs nfs] obtain g3 where
    r4: "remove_no_outputs g2 fs = Inr g3"
    and n3': "\<forall>m. map_of (node g3) m =
               (if m \<in> set fs \<and> out_degree g2 m = 0 then None else map_of (node g2) m)"
    and a3': "\<forall>e. map_of (adj g3) e =
               (if (fst e \<in> set fs \<and> out_degree g2 (fst e) = 0) \<or> (snd e \<in> set fs \<and> out_degree g2 (snd e) = 0)
                then None else map_of (adj g2) e)"
    by blast
  have ho: "has_outputs g nb es m \<longleftrightarrow> has_inputs g nb m \<and> \<not> (m \<in> set fs \<and> out_degree g2 m = 0)" for m
    by (auto simp: has_outputs_iff fs out_degree_0_iff e2)
  have n3: "map_of (node g3) m = (if has_outputs g nb es m then map_of (node g) m else None)" for m
    using n3' by (auto simp: ho n2)
  have a3: "map_of (adj g3) (u, v) =
      (if retained_edge g nb es u v then map_of (adj g) (u, v) else None)" for u v
  proof -
    have "retained_edge g nb es u v \<longleftrightarrow>
        sub_edge g nb es u v \<and> \<not> (u \<in> set fs \<and> out_degree g2 u = 0) \<and> \<not> (v \<in> set fs \<and> out_degree g2 v = 0)"
      by (auto simp: retained_edge_def ho sub_edge_def)
    then show ?thesis using a3' by (auto simp: a2)
  qed
  have e3: "has_edge g3 u v \<longleftrightarrow> retained_edge g nb es u v" for u v
    by (simp add: has_edge_def a3) (simp add: retained_edge_def sub_edge_def has_edge_def)
  define g4 where "g4 = remove_nodes_from g3 (isolates g3)"
  have n4: "map_of (node g4) m = (if retained_node g nb es m then map_of (node g) m else None)" for m
    by (auto simp: g4_def node_remove_isolates e3 retained_node_iff n3)
  have a4: "map_of (adj g4) (u, v) =
      (if retained_edge g nb es u v then map_of (adj g) (u, v) else None)" for u v
    by (simp add: g4_def adj_remove_isolates a3)
  have h4: "has_node g4 m \<longleftrightarrow> retained_node g nb es m" for m
    by (simp add: has_node_def n4)
       (auto simp: retained_node_iff has_outputs_iff has_inputs_def has_node_def)
  define sub where "sub = sub_dsp\<lparr>dmap := g4,
      default_values := filter (\<lambda>p. has_node g4 (fst p)) (default_values self)\<rparr>"
  have res: "get_sub_dsp get_node self N E = Inr sub"
    using rp r1 r2 r3 r4
    by (simp add: get_sub_dsp_def Let_def sd sub_def g4_def g_def [symmetric] g0_def [symmetric]
          sub_dsp_def [symmetric])
  have dv: "map_of (default_values sub) m =
      (if retained_node g nb es m then map_of (default_values self) m else None)" for m
  proof -
    have "default_values sub = filter (\<lambda>p. has_node g4 (fst p)) (default_values self)"
      by (simp add: sub_def)
    then have "map_of (default_values sub) m =
        (if has_node g4 m then map_of (default_values self) m else None)"
      by (simp only: map_of_filter_key [where P = "\<lambda>k. has_node g4 k"])
    then show ?thesis by (simp add: h4)
  qed
  have "dmap sub = g4" by (simp add: sub_def)
  with res n4 a4 dv show ?thesis
    unfolding g_def es_def by blast
qed

theorem get_sub_dsp_restriction_witness:
  "real_paths (self_node dsp_two)
       [Name ''a'', Name ''c'', Name ''d'', Name ''e'', Name ''fun1'', Name ''fun2'']
     = Inr [Name ''a'', Name ''c'', Name ''d'', Name ''e'', Name ''fun1'', Name ''fun2''] \<and>
   has_edge (dmap dsp_two) (Name ''a'') (Name ''fun2'') \<and>
   (\<exists>sub. get_sub_dsp self_node dsp_two
             [Name ''a'', Name ''c'', Name ''d'', Name ''e'', Name ''fun1'', Name ''fun2'']
             (Some [(Name ''a'', Name ''fun2'')]) = Inr sub \<and>
      map_of (node (dmap sub)) (Name ''fun1'') = None \<and>
      map_of (node (dmap sub)) (Name ''a'') = None \<and>
      map_of (node (dmap sub)) (Name ''fun2'') = map_of (node (dmap dsp_two)) (Name ''fun2'') \<and>
      map_of (adj (dmap sub)) (Name ''a'', Name ''fun2'') = None \<and>
      map_of (adj (dmap sub)) (Name ''d'', Name ''fun2'')
        = map_of (adj (dmap dsp_two)) (Name ''d'', Name ''fun2'') \<and>
      map_of (default_values sub) (Name ''a'') = None)"
proof -
  let ?N = "[Name ''a'', Name ''c'', Name ''d'', Name ''e'', Name ''fun1'', Name ''fun2'']"
  let ?E = "Some [(Name ''a'', Name ''fun2'')]"
  have rp: "real_paths (self_node dsp_two) ?N = Inr ?N" by code_simp
  have dn: "distinct ?N" by simp
  have dg: "distinct (map fst (node (dmap dsp_two)))" by code_simp
  have ty: "\<forall>u\<in>set ?N. node_attr (dmap dsp_two) u ''type'' \<noteq> None" by code_simp
  have ff: "\<forall>e\<in>set (adj (dmap dsp_two)).
             \<not> (is_function_node (dmap dsp_two) (fst (fst e)) \<and>
                is_function_node (dmap dsp_two) (snd (fst e)))" by code_simp
  have de: "distinct (edge_list ?E)" by (simp add: edge_list_def)
  have ee: "\<forall>e\<in>set (edge_list ?E). has_edge (dmap dsp_two) (fst e) (snd e) \<and>
             has_inputs (dmap dsp_two) ?N (fst e) \<and> has_inputs (dmap dsp_two) ?N (snd e)"
    by code_simp
  have he: "has_edge (dmap dsp_two) (Name ''a'') (Name ''fun2'')" by code_simp
  have k1: "\<not> retained_node (dmap dsp_two) ?N (edge_list ?E) (Name ''fun1'')" by code_simp
  have k2: "\<not> retained_node (dmap dsp_two) ?N (edge_list ?E) (Name ''a'')" by code_simp
  have k3: "retained_node (dmap dsp_two) ?N (edge_list ?E) (Name ''fun2'')" by code_simp
  have k4: "\<not> retained_edge (dmap dsp_two) ?N (edge_list ?E) (Name ''a'') (Name ''fun2'')"
    by code_simp
  have k5: "retained_edge (dmap dsp_two) ?N (edge_list ?E) (Name ''d'') (Name ''fun2'')"
    by code_simp
  from get_sub_dsp_restriction [of self_node dsp_two ?N ?N ?E, OF rp dn dg ty ff de ee]
  obtain sub where s: "get_sub_dsp self_node dsp_two ?N ?E = Inr sub"
    and n: "\<forall>u. map_of (node (dmap sub)) u =
        (if retained_node (dmap dsp_two) ?N (edge_list ?E) u
         then map_of (node (dmap dsp_two)) u else None)"
    and a: "\<forall>u v. map_of (adj (dmap sub)) (u, v) =
        (if retained_edge (dmap dsp_two) ?N (edge_list ?E) u v
         then map_of (adj (dmap dsp_two)) (u, v) else None)"
    and d: "\<forall>u. map_of (default_values sub) u =
        (if retained_node (dmap dsp_two) ?N (edge_list ?E) u
         then map_of (default_values dsp_two) u else None)"
    by blast
  show ?thesis
    using rp he s n [rule_format, of "Name ''fun1''"] n [rule_format, of "Name ''a''"]
      n [rule_format, of "Name ''fun2''"] a [rule_format, of "Name ''a''" "Name ''fun2''"]
      a [rule_format, of "Name ''d''" "Name ''fun2''"] d [rule_format, of "Name ''a''"]
      k1 k2 k3 k4 k5
    by simp
qed

text \<open>
  An edge listed in \<open>E\<close> that is not an edge of the sub-graph: \<^verbatim>\<open>remove_edge\<close> raises
  \<^verbatim>\<open>NetworkXError\<close> and no dispatcher is returned.
\<close>

theorem get_sub_dsp_absent_edge_counterexample:
  "has_node (dmap dsp_a_f) (Name ''a'') \<and> has_node (dmap dsp_a_f) (Name ''b'') \<and>
   get_sub_dsp self_node dsp_a_f [Name ''a'', Name ''f'', Name ''b'']
     (Some [(Name ''a'', Name ''b'')]) = Inl NetworkXError"
  by code_simp

end
